theory Spec2Isabelle
  imports Complex_Main "HOL-Library.AList" "HOL-Library.Sublist"
begin

section \<open>Stream decoding model of \<open>basaran/model.py\<close>\<close>

text \<open>
  The development embeds class \<open>StreamModel\<close> of \<open>src/basaran/model.py\<close>.
  Python integers are \<open>int\<close>. Tensor entries of integer type are \<open>int\<close> as well: with
  at most one end-of-sequence id every entry of \<open>unfinished\<close> is 0 or 1, so the 64-bit
  range of the tensors is never left by the arithmetic of the loop. Python floats and
  float tensors are idealised as \<open>real\<close>. A one-dimensional tensor is a list, a batch
  (two-dimensional tensor) is the list of its rows.
\<close>

subsection \<open>Errors and results\<close>

datatype py_error =
    TypeError
  | IndexError
  | AttributeError
  | RuntimeError
  | ModelError nat
  | RetryError py_error

type_synonym 'a result = "py_error + 'a"

definition bind_r :: "'a result \<Rightarrow> ('a \<Rightarrow> 'b result) \<Rightarrow> 'b result" where
  "bind_r r f = (case r of Inl e \<Rightarrow> Inl e | Inr v \<Rightarrow> f v)"

fun sequence_r :: "'a result list \<Rightarrow> 'a list result" where
  "sequence_r [] = Inr []"
| "sequence_r (r # rs) =
     (case r of Inl e \<Rightarrow> Inl e
      | Inr v \<Rightarrow> (case sequence_r rs of Inl e \<Rightarrow> Inl e | Inr vs \<Rightarrow> Inr (v # vs)))"

text \<open>How a generator ends: exhausted, or by an exception raised in its body.\<close>

datatype outcome = StopIteration | Raised py_error

subsection \<open>Generation config\<close>

datatype eos_ids = EosInt int | EosList "int list"

record generation_config =
  min_new_tokens :: "int option"
  max_new_tokens :: "int option"
  temperature :: "real option"
  top_p :: "real option"
  pad_token_id :: "int option"
  bos_token_id :: "int option"
  eos_token_id :: "eos_ids option"
  decoder_start_token_id :: "int option"

text \<open>
  The keyword arguments of \<open>generate\<close> that \<open>config.update\<close> consumes; \<open>None\<close> is a
  keyword that was not passed.
\<close>

record gen_kwargs =
  kw_min_new_tokens :: "int option"
  kw_max_new_tokens :: "int option"
  kw_temperature :: "real option"
  kw_top_p :: "real option"

definition config_update :: "generation_config \<Rightarrow> gen_kwargs \<Rightarrow> generation_config" where
  "config_update config kw =
     config\<lparr>min_new_tokens :=
              (case kw_min_new_tokens kw of None \<Rightarrow> min_new_tokens config | Some v \<Rightarrow> Some v),
            max_new_tokens :=
              (case kw_max_new_tokens kw of None \<Rightarrow> max_new_tokens config | Some v \<Rightarrow> Some v),
            temperature :=
              (case kw_temperature kw of None \<Rightarrow> temperature config | Some v \<Rightarrow> Some v),
            top_p :=
              (case kw_top_p kw of None \<Rightarrow> top_p config | Some v \<Rightarrow> Some v)\<rparr>"

subsection \<open>The world: forward passes, retry delays, inference mode\<close>

text \<open>
  \<open>invocations\<close> logs every executed call of a model function, with the value of torch's
  inference-mode flag at the time of the call; \<open>clock\<close> counts the time units slept by
  the retry policy; \<open>inference_mode\<close> is the flag itself.
\<close>

record world =
  invocations :: "bool list"
  clock :: nat
  inference_mode :: bool

text \<open>
  A model function with its keyword arguments applied: its outcome may depend on how many
  forward passes were run before (transient failures).
\<close>

type_synonym 'a model_fn = "nat \<Rightarrow> 'a result"

definition invoke :: "'a model_fn \<Rightarrow> world \<Rightarrow> 'a result \<times> world" where
  "invoke model_fn w =
     (model_fn (length (invocations w)),
      w\<lparr>invocations := invocations w @ [inference_mode w]\<rparr>)"

text \<open>The body of \<open>infer\<close>: \<open>with torch.inference_mode(): return model_fn(**kwargs)\<close>.\<close>

definition infer_body :: "'a model_fn \<Rightarrow> world \<Rightarrow> 'a result \<times> world" where
  "infer_body model_fn w =
     (let previous = inference_mode w;
          (r, w') = invoke model_fn (w\<lparr>inference_mode := True\<rparr>)
      in (r, w'\<lparr>inference_mode := previous\<rparr>))"

text \<open>
  The decorator \<open>retry(stop=stop_after_attempt(k), wait=wait_fixed(d))\<close> of tenacity, which
  is not part of the repository: the function is attempted; a raised exception is retried
  after sleeping \<open>d\<close> unless the attempt was the \<open>k\<close>-th, in which case tenacity raises
  its \<open>RetryError\<close> holding the last attempt (\<open>reraise\<close> is left at its default). The first
  argument of \<open>retry_loop\<close> is the number of attempts left after the current one.
\<close>

fun retry_loop ::
  "nat \<Rightarrow> nat \<Rightarrow> (world \<Rightarrow> 'a result \<times> world) \<Rightarrow> world \<Rightarrow> 'a result \<times> world" where
  "retry_loop 0 d f w =
     (case f w of
        (Inl e, w') \<Rightarrow> (Inl (RetryError e), w')
      | (Inr v, w') \<Rightarrow> (Inr v, w'))"
| "retry_loop (Suc left) d f w =
     (case f w of
        (Inl e, w') \<Rightarrow> retry_loop left d f (w'\<lparr>clock := clock w' + d\<rparr>)
      | (Inr v, w') \<Rightarrow> (Inr v, w'))"

definition retry ::
  "nat \<Rightarrow> nat \<Rightarrow> (world \<Rightarrow> 'a result \<times> world) \<Rightarrow> world \<Rightarrow> 'a result \<times> world" where
  "retry stop_after_attempt wait_fixed f = retry_loop (stop_after_attempt - 1) wait_fixed f"

definition infer :: "'a model_fn \<Rightarrow> world \<Rightarrow> 'a result \<times> world" where
  "infer model_fn = retry 5 1 (infer_body model_fn)"

subsection \<open>Logits processor\<close>

text \<open>
  The three processors of the transformers library that \<open>logits_processor\<close> may
  instantiate, with their constructor arguments.
\<close>

datatype logits_warper =
    MinNewTokensLengthLogitsProcessor int int eos_ids
  | TemperatureLogitsWarper real
  | TopPLogitsWarper real

definition min_new_tokens_part :: "generation_config \<Rightarrow> int \<Rightarrow> logits_warper list" where
  "min_new_tokens_part config input_length =
     (case min_new_tokens config of
        None \<Rightarrow> []
      | Some m \<Rightarrow>
          (if m > 0 then
             (case eos_token_id config of
                None \<Rightarrow> []
              | Some e \<Rightarrow> [MinNewTokensLengthLogitsProcessor input_length m e])
           else []))"

definition temperature_part :: "generation_config \<Rightarrow> logits_warper list" where
  "temperature_part config =
     (case temperature config of
        None \<Rightarrow> []
      | Some t \<Rightarrow> (if t > 0 \<and> t \<noteq> 1 then [TemperatureLogitsWarper t] else []))"

definition top_p_part :: "generation_config \<Rightarrow> logits_warper list" where
  "top_p_part config =
     (case top_p config of
        None \<Rightarrow> []
      | Some p \<Rightarrow> (if p > 0 \<and> p < 1 then [TopPLogitsWarper p] else []))"

text \<open>
  \<open>processor = LogitsProcessorList()\<close> followed by the three conditional \<open>append\<close>s, in
  the order of the source.
\<close>

definition logits_processor :: "generation_config \<Rightarrow> int \<Rightarrow> logits_warper list" where
  "logits_processor config input_length =
     (([] @ min_new_tokens_part config input_length) @ temperature_part config)
       @ top_p_part config"

text \<open>
  Calling a \<open>LogitsProcessorList\<close> runs its members from first to last on the scores of
  one row; \<open>warp\<close> is the numeric effect of one member (library code).
\<close>

definition run_processor ::
  "(logits_warper \<Rightarrow> int list \<Rightarrow> real list \<Rightarrow> real list) \<Rightarrow> logits_warper list \<Rightarrow>
   int list \<Rightarrow> real list \<Rightarrow> real list" where
  "run_processor warp processor ids scores = fold (\<lambda>p s. warp p ids s) processor scores"

subsection \<open>Sampling diagnostics\<close>

text \<open>
  Python's \<open>round(x, 8)\<close>: the nearest multiple of \<open>10\<^sup>-\<^sup>8\<close>, a tie going to the even
  multiple.
\<close>

definition round_half_even :: "real \<Rightarrow> int" where
  "round_half_even y =
     (let f = \<lfloor>y\<rfloor>; d = y - of_int f
      in if d < 1 / 2 then f else if 1 / 2 < d then f + 1 else if even f then f else f + 1)"

definition round8 :: "real \<Rightarrow> real" where
  "round8 x = of_int (round_half_even (x * 10 ^ 8)) / 10 ^ 8"

text \<open>A Python dict in insertion order; \<open>dict(pairs)\<close> stores the pairs from first to last.\<close>

definition dict_of :: "('k \<times> 'v) list \<Rightarrow> ('k \<times> 'v) list" where
  "dict_of pairs = fold (\<lambda>(k, v) d. AList.update k v d) pairs []"

record samples =
  s_token :: string
  s_token_logprob :: real
  s_top_logprobs :: "(string \<times> real) list"

text \<open>
  \<open>sample\<close>; its first argument is \<open>self.tokenizer.decode\<close>, and \<open>batch_decode\<close> decodes
  each id of the list on its own.
\<close>

definition sample ::
  "(int \<Rightarrow> string) \<Rightarrow> int \<Rightarrow> real \<Rightarrow> int list \<Rightarrow> real list \<Rightarrow> samples" where
  "sample decode token token_logprob top_tokens top_logprobs =
     (let token' = decode token;
          top_tokens' = map decode top_tokens;
          token_logprob' = round8 token_logprob;
          top_logprobs' = map round8 top_logprobs;
          d = dict_of (zip top_tokens' top_logprobs');
          d' = AList.update token' token_logprob' d
      in \<lparr>s_token = token', s_token_logprob = token_logprob', s_top_logprobs = d'\<rparr>)"

subsection \<open>Tensor operations used by \<open>generate\<close>\<close>

text \<open>\<open>shape[-1]\<close> of a batch: the common length of its rows.\<close>

definition ncols :: "int list list \<Rightarrow> nat" where
  "ncols ids = (case ids of [] \<Rightarrow> 0 | row # _ \<Rightarrow> length row)"

definition softmax :: "real list \<Rightarrow> real list" where
  "softmax scores = (let es = map exp scores; z = sum_list es in map (\<lambda>e. e / z) es)"

text \<open>\<open>torch.argmax\<close> along the last dimension: the first index of a maximal entry.\<close>

definition argmax :: "real list \<Rightarrow> int result" where
  "argmax row =
     (case row of
        [] \<Rightarrow> Inl IndexError
      | p # qs \<Rightarrow>
          Inr (int (fst (fold (\<lambda>q (best, bv, i). if bv < q then (i, q, i + 1) else (best, bv, i + 1))
                              qs (0, p, 1::nat)))))"

definition gather :: "real list \<Rightarrow> int \<Rightarrow> real result" where
  "gather row t = (if 0 \<le> t \<and> nat t < length row then Inr (row ! nat t) else Inl RuntimeError)"

text \<open>
  \<open>topk\<close> along the last dimension: the \<open>k\<close> largest entries in descending order with
  their indices; it raises when the row has fewer than \<open>k\<close> entries. Among equal entries
  the lower index comes first here; torch leaves that order open, and no theorem below
  depends on it.
\<close>

definition topk :: "int \<Rightarrow> real list \<Rightarrow> (real list \<times> int list) result" where
  "topk k row =
     (if k < 0 \<or> int (length row) < k then Inl RuntimeError
      else (let best = take (nat k) (sort_key (\<lambda>(p, i). - p) (zip row [0..<length row]))
            in Inr (map fst best, map (\<lambda>(p, i). int i) best)))"

definition tensor_max :: "int list \<Rightarrow> int result" where
  "tensor_max xs = (case xs of [] \<Rightarrow> Inl RuntimeError | x # ys \<Rightarrow> Inr (fold max ys x))"

subsection \<open>The model and the library\<close>

text \<open>
  \<open>self.model\<close>: its generation config, its architecture flag, its encoder and its forward
  pass. A successful forward pass gives, for the history of a row, the scores of that
  row's next token (\<open>outputs.logits[:, -1, :]\<close>); the decoder cache only saves
  recomputation and is part of that function. The encoder output is of an abstract
  type \<open>'o\<close>.
\<close>

record 'o language_model =
  lm_generation_config :: generation_config
  lm_is_encoder_decoder :: bool
  lm_encoder :: "int list list \<Rightarrow> 'o model_fn"
  lm_forward :: "'o option \<Rightarrow> (int list \<Rightarrow> real list) model_fn"

text \<open>
  Library code: \<open>multinomial\<close> draws the token of one row from its distribution (the
  random generator is abstracted to a function of the decode step and the row index),
  \<open>warp\<close> is the numeric effect of one logits processor on one row.
\<close>

record library =
  multinomial :: "nat \<Rightarrow> nat \<Rightarrow> real list \<Rightarrow> int"
  warp :: "logits_warper \<Rightarrow> int list \<Rightarrow> real list \<Rightarrow> real list"

subsection \<open>The decode loop of \<open>generate\<close>\<close>

record step_result =
  tokens :: "int list"
  token_logprobs :: "real list"
  top_tokens :: "int list list"
  top_logprobs :: "real list list"
  status :: "int list"

text \<open>What \<open>generate\<close> fixes before its loop.\<close>

record 'o gen_ctx =
  ctx_config :: generation_config
  ctx_logprobs :: int
  ctx_pad_token_id :: "int option"
  ctx_eos_token_id :: "int list option"
  ctx_input_length :: int
  ctx_processor :: "logits_warper list"
  ctx_encoder_outputs :: "'o option"

text \<open>Select deterministic or stochastic decoding strategy.\<close>

definition select_tokens ::
  "library \<Rightarrow> generation_config \<Rightarrow> nat \<Rightarrow> real list list \<Rightarrow> int list result" where
  "select_tokens lib config step probs =
     (if (case top_p config of None \<Rightarrow> False | Some p \<Rightarrow> p \<le> 0)
         \<or> (case temperature config of None \<Rightarrow> False | Some t \<Rightarrow> t \<le> 0)
      then sequence_r (map argmax probs)
      else Inr (map2 (\<lambda>i row. multinomial lib step i row) [0..<length probs] probs))"

text \<open>Finished sequences should have their next token be a padding.\<close>

definition pad_finished :: "int option \<Rightarrow> int list \<Rightarrow> int list \<Rightarrow> int list" where
  "pad_finished pad toks unfinished =
     (case pad of
        None \<Rightarrow> toks
      | Some p \<Rightarrow> map2 (\<lambda>t u. t * u + p * (1 - u)) toks unfinished)"

text \<open>
  Mark sequences with eos tokens as finished:
  \<open>not_eos = sum(tokens != i for i in eos_token_id)\<close>, and \<open>.long()\<close> of the integer 0
  that the sum of an empty list is raises.

  \<open>unfinished\<close> is an int64 tensor, and its entries are integers here. The two agree as
  long as the entries stay inside the int64 range. With at most one end-of-sequence id
  every entry is 0 or 1, since every step multiplies it by 0 or by 1. With two or more ids
  the product can double an entry on every step, so that after 63 doublings the tensor of
  the code wraps around while the integer grows on. The statements below that allow
  several ids do not reach such entries: they follow a replica while its entry is 0 or 1,
  or look at the first step of a run, where an entry is at most the number of ids, or do
  not depend on the entries at all.
\<close>

definition mark_eos :: "int list option \<Rightarrow> int list \<Rightarrow> int list \<Rightarrow> int list result" where
  "mark_eos eos unfinished toks =
     (case eos of
        None \<Rightarrow> Inr unfinished
      | Some es \<Rightarrow>
          (if es = [] then Inl AttributeError
           else Inr (map2 (\<lambda>u t. u * int (length (filter (\<lambda>i. t \<noteq> i) es))) unfinished toks)))"

text \<open>Set status to -1 if exceeded the max length; comparing with \<open>None\<close> raises.\<close>

definition step_status :: "int option \<Rightarrow> int \<Rightarrow> int list \<Rightarrow> int list result" where
  "step_status max_new new_tokens unfinished =
     (case max_new of
        None \<Rightarrow> Inl TypeError
      | Some m \<Rightarrow> Inr (if new_tokens \<ge> m then map (\<lambda>u. 0 - u) unfinished else unfinished))"

text \<open>
  Pre-process the probability distribution of the next tokens: the last scores of every
  row, the logits processor, softmax.
\<close>

definition next_token_probs ::
  "library \<Rightarrow> 'o gen_ctx \<Rightarrow> int list list \<Rightarrow> (int list \<Rightarrow> real list) \<Rightarrow> real list list" where
  "next_token_probs lib ctx input_ids g =
     (let logits = map g input_ids;
          logits' = map2 (run_processor (warp lib) (ctx_processor ctx)) input_ids logits
      in map softmax logits')"

text \<open>
  One pass through the body of \<open>while True\<close> after the forward pass returned \<open>g\<close>, up to
  the \<open>yield\<close>: the yielded tuple, the new \<open>input_ids\<close> and the new \<open>unfinished\<close>.
\<close>

definition decode_step ::
  "library \<Rightarrow> 'o gen_ctx \<Rightarrow> int list list \<Rightarrow> int list \<Rightarrow> (int list \<Rightarrow> real list) \<Rightarrow>
   (step_result \<times> int list list \<times> int list) result" where
  "decode_step lib ctx input_ids unfinished g =
     (let probs = next_token_probs lib ctx input_ids g
      in bind_r (select_tokens lib (ctx_config ctx) (ncols input_ids) probs) (\<lambda>toks.
         bind_r (sequence_r (map2 gather probs toks)) (\<lambda>ps.
         bind_r (sequence_r (map (topk (ctx_logprobs ctx)) probs)) (\<lambda>tops.
           (let toks' = pad_finished (ctx_pad_token_id ctx) toks unfinished;
                input_ids' = map2 (\<lambda>row t. row @ [t]) input_ids toks'
            in bind_r (mark_eos (ctx_eos_token_id ctx) unfinished toks') (\<lambda>unfinished'.
               bind_r (step_status (max_new_tokens (ctx_config ctx))
                         (int (ncols input_ids') - ctx_input_length ctx) unfinished') (\<lambda>st.
                 Inr (\<lparr>tokens = toks',
                       token_logprobs = map (\<lambda>p. ln (p + 1 / 10 ^ 7)) ps,
                       top_tokens = map snd tops,
                       top_logprobs = map (\<lambda>(vals, idx). map (\<lambda>p. ln (p + 1 / 10 ^ 7)) vals) tops,
                       status = st\<rparr>,
                      input_ids', unfinished'))))))))"

text \<open>
  The \<open>while True\<close> loop as a generator: the tuples it yields, how it ends, and the world
  it leaves. The first argument bounds the number of iterations; \<open>None\<close> means the loop
  was still running when the bound was used up.
\<close>

fun gen_loop ::
  "nat \<Rightarrow> 'o language_model \<Rightarrow> library \<Rightarrow> 'o gen_ctx \<Rightarrow> int list list \<Rightarrow> int list \<Rightarrow> world \<Rightarrow>
   (step_result list \<times> outcome \<times> world) option" where
  "gen_loop 0 lm lib ctx input_ids unfinished w = None"
| "gen_loop (Suc fuel) lm lib ctx input_ids unfinished w =
     (case infer (lm_forward lm (ctx_encoder_outputs ctx)) w of
        (Inl e, w') \<Rightarrow> Some ([], Raised e, w')
      | (Inr g, w') \<Rightarrow>
          (case decode_step lib ctx input_ids unfinished g of
             Inl e \<Rightarrow> Some ([], Raised e, w')
           | Inr (r, input_ids', unfinished') \<Rightarrow>
               (case tensor_max (status r) of
                  Inl e \<Rightarrow> Some ([r], Raised e, w')
                | Inr mx \<Rightarrow>
                    (if mx \<le> 0 then Some ([r], StopIteration, w')
                     else (case gen_loop fuel lm lib ctx input_ids' unfinished' w' of
                             None \<Rightarrow> None
                           | Some (rs, out, w'') \<Rightarrow> Some (r # rs, out, w''))))))"

text \<open>
  The value of \<open>input_ids\<close> after the loop has yielded the tuples \<open>rs\<close>: every pass appends
  the tokens of its tuple (\<open>torch.cat([input_ids, tokens[:, None]], dim=-1)\<close>).
\<close>

definition history :: "int list list \<Rightarrow> step_result list \<Rightarrow> int list list" where
  "history input_ids rs = fold (\<lambda>r ids. map2 (\<lambda>row t. row @ [t]) ids (tokens r)) rs input_ids"

subsection \<open>The prelude of \<open>generate\<close>\<close>

definition normalize_eos :: "eos_ids option \<Rightarrow> int list option" where
  "normalize_eos e =
     (case e of None \<Rightarrow> None | Some (EosInt i) \<Rightarrow> Some [i] | Some (EosList is) \<Rightarrow> Some is)"

text \<open>\<open>eos_token_id[0]\<close>.\<close>

definition first_id :: "int list \<Rightarrow> int result" where
  "first_id es = (case es of [] \<Rightarrow> Inl IndexError | e # _ \<Rightarrow> Inr e)"

text \<open>Collect special token IDs: the pad id that the loop uses.\<close>

definition collect_pad :: "int option \<Rightarrow> int list option \<Rightarrow> int option result" where
  "collect_pad pad eos =
     (case pad of
        Some p \<Rightarrow> Inr (Some p)
      | None \<Rightarrow>
          (case eos of
             None \<Rightarrow> Inr None
           | Some es \<Rightarrow> bind_r (first_id es) (\<lambda>e. Inr (Some e))))"

text \<open>Generate from eos if no input is specified: the new \<open>input_ids\<close> and \<open>input_length\<close>.\<close>

definition seed_empty :: "int list list \<Rightarrow> int list option \<Rightarrow> (int list list \<times> int) result" where
  "seed_empty input_ids eos =
     (if ncols input_ids = 0 then
        (case eos of
           None \<Rightarrow> Inr (replicate (length input_ids) [1], 1)
         | Some es \<Rightarrow> bind_r (first_id es) (\<lambda>e. Inr (replicate (length input_ids) [1 * e], 1)))
      else Inr (input_ids, int (ncols input_ids)))"

text \<open>
  Prepare inputs for encoder-decoder models: the encoder runs through \<open>infer\<close>, and the
  decoder starts from one start token per row; multiplying by \<open>None\<close> raises.
\<close>

definition prepare_encoder_decoder ::
  "'o language_model \<Rightarrow> generation_config \<Rightarrow> int list list \<Rightarrow> int \<Rightarrow> nat \<Rightarrow> world \<Rightarrow>
   (int list list \<times> int \<times> 'o option) result \<times> world" where
  "prepare_encoder_decoder lm config input_ids input_length batch_size w =
     (if lm_is_encoder_decoder lm then
        (case infer (lm_encoder lm input_ids) w of
           (Inl e, w') \<Rightarrow> (Inl e, w')
         | (Inr encoder_outputs, w') \<Rightarrow>
             (case (case decoder_start_token_id config of
                      None \<Rightarrow> bos_token_id config
                    | Some s \<Rightarrow> Some s) of
                None \<Rightarrow> (Inl TypeError, w')
              | Some s \<Rightarrow> (Inr (replicate batch_size [1 * s], 1, Some encoder_outputs), w')))
      else (Inr (input_ids, input_length, None), w))"

definition generate_init ::
  "'o language_model \<Rightarrow> int list list \<Rightarrow> int \<Rightarrow> gen_kwargs \<Rightarrow> world \<Rightarrow>
   ('o gen_ctx \<times> int list list \<times> int list) result \<times> world" where
  "generate_init lm input_ids logprobs kwargs w =
     (let batch_size = length input_ids;
          config = config_update (lm_generation_config lm) kwargs;
          eos = normalize_eos (eos_token_id config)
      in case bind_r (collect_pad (pad_token_id config) eos) (\<lambda>pad.
              bind_r (seed_empty input_ids eos) (\<lambda>seeded. Inr (pad, seeded))) of
           Inl e \<Rightarrow> (Inl e, w)
         | Inr (pad, input_ids1, input_length1) \<Rightarrow>
             (case prepare_encoder_decoder lm config input_ids1 input_length1 batch_size w of
                (Inl e, w') \<Rightarrow> (Inl e, w')
              | (Inr (input_ids2, input_length2, encoder_outputs), w') \<Rightarrow>
                  (Inr (\<lparr>ctx_config = config,
                         ctx_logprobs = logprobs,
                         ctx_pad_token_id = pad,
                         ctx_eos_token_id = eos,
                         ctx_input_length = input_length2,
                         ctx_processor = logits_processor config input_length2,
                         ctx_encoder_outputs = encoder_outputs\<rparr>,
                        input_ids2, replicate batch_size 1), w')))"

definition generate ::
  "nat \<Rightarrow> 'o language_model \<Rightarrow> library \<Rightarrow> int list list \<Rightarrow> int \<Rightarrow> gen_kwargs \<Rightarrow> world \<Rightarrow>
   (step_result list \<times> outcome \<times> world) option" where
  "generate fuel lm lib input_ids logprobs kwargs w =
     (case generate_init lm input_ids logprobs kwargs w of
        (Inl e, w') \<Rightarrow> Some ([], Raised e, w')
      | (Inr (ctx, input_ids', unfinished), w') \<Rightarrow> gen_loop fuel lm lib ctx input_ids' unfinished w')"

subsection \<open>The stream orchestrator \<open>__call__\<close>\<close>

text \<open>
  A prompt as Python sees it: a string, a tensor with its number of dimensions (the
  entries matter only for a one-dimensional tensor), or a value of any other type.
\<close>

datatype prompt = StrPrompt string | TensorPrompt nat "int list" | OtherPrompt

datatype finish_reason = Stop | Length

text \<open>
  \<open>map_choice\<close> is defined outside \<open>model.py\<close>; a choice is the record of the arguments
  it is called with.
\<close>

record choice =
  c_text :: string
  c_index :: nat
  c_text_offset :: nat
  c_finish_reason :: "finish_reason option"
  c_samples :: "samples option"

text \<open>
  The tokenizer and the class \<open>StreamDecoder\<close>, both defined outside \<open>model.py\<close>:
  \<open>new_decoder\<close> is a fresh decoder, \<open>decoder_decode\<close> its method \<open>decode\<close> (the text and
  the decoder afterwards), \<open>decoder_start\<close> its attribute \<open>start\<close>.
\<close>

record 'd tokenizer =
  encode :: "string \<Rightarrow> int list"
  decode :: "int \<Rightarrow> string"
  new_decoder :: 'd
  decoder_decode :: "'d \<Rightarrow> int \<Rightarrow> string \<times> 'd"
  decoder_start :: "'d \<Rightarrow> nat"

text \<open>A \<open>for\<close> loop whose body yields elements and updates the loop's variables.\<close>

fun for_each :: "'i list \<Rightarrow> ('i \<Rightarrow> 's \<Rightarrow> 'c list \<times> 's) \<Rightarrow> 's \<Rightarrow> 'c list \<times> 's" where
  "for_each [] body s = ([], s)"
| "for_each (i # is) body s =
     (let (ys, s') = body i s; (zs, s'') = for_each is body s' in (ys @ zs, s''))"

text \<open>Echo prompt tokens if required: the body of \<open>for i in range(n)\<close>.\<close>

definition echo_replica ::
  "'d tokenizer \<Rightarrow> bool \<Rightarrow> samples option \<Rightarrow> int \<Rightarrow> nat \<Rightarrow> 'd list \<Rightarrow> choice list \<times> 'd list" where
  "echo_replica tk echo smp token i decoders =
     (let (text, d) = decoder_decode tk (decoders ! i) token;
          decoders' = decoders[i := d];
          offset = decoder_start tk (decoders' ! i)
      in (if echo
          then [\<lparr>c_text = text, c_index = i, c_text_offset = offset,
                 c_finish_reason = None, c_samples = smp\<rparr>]
          else [],
          decoders'))"

definition echo_token ::
  "'d tokenizer \<Rightarrow> bool \<Rightarrow> int \<Rightarrow> nat \<Rightarrow> int \<Rightarrow> 'd list \<Rightarrow> choice list \<times> 'd list" where
  "echo_token tk echo logprobs n token decoders =
     (let smp = (if logprobs > 0 then Some (sample (decode tk) token 0 [] []) else None)
      in for_each [0..<n] (echo_replica tk echo smp token) decoders)"

text \<open>
  Generate completion tokens: the body of \<open>for i in range(n)\<close> for one tuple of
  \<open>generate\<close>. The loop's variables are \<open>finish_reasons\<close> and \<open>decoders\<close>; both lists and
  every entry of the tuple have \<open>n\<close> elements, so every index is in range.
\<close>

definition emit_replica ::
  "'d tokenizer \<Rightarrow> int \<Rightarrow> step_result \<Rightarrow> nat \<Rightarrow> finish_reason option list \<times> 'd list \<Rightarrow>
   choice list \<times> finish_reason option list \<times> 'd list" where
  "emit_replica tk logprobs r i s =
     (case s of (finish_reasons, decoders) \<Rightarrow>
        (if finish_reasons ! i \<noteq> None then ([], finish_reasons, decoders)
         else
           (let finish_reasons' =
                  (if status r ! i = 0 then finish_reasons[i := Some Stop]
                   else if status r ! i = - 1 then finish_reasons[i := Some Length]
                   else finish_reasons);
                smp = (if logprobs > 0
                       then Some (sample (decode tk) (tokens r ! i) (token_logprobs r ! i)
                                    (top_tokens r ! i) (top_logprobs r ! i))
                       else None);
                (text, d) = decoder_decode tk (decoders ! i) (tokens r ! i);
                decoders' = decoders[i := d];
                offset = decoder_start tk (decoders' ! i)
            in ([\<lparr>c_text = text, c_index = i, c_text_offset = offset,
                   c_finish_reason = finish_reasons' ! i, c_samples = smp\<rparr>],
                finish_reasons', decoders'))))"

definition emit_step ::
  "'d tokenizer \<Rightarrow> int \<Rightarrow> nat \<Rightarrow> step_result \<Rightarrow> finish_reason option list \<times> 'd list \<Rightarrow>
   choice list \<times> finish_reason option list \<times> 'd list" where
  "emit_step tk logprobs n r s = for_each [0..<n] (emit_replica tk logprobs r) s"

text \<open>The prompt check at the head of the body.\<close>

definition prompt_ids :: "'d tokenizer \<Rightarrow> prompt \<Rightarrow> int list result" where
  "prompt_ids tk p =
     (case p of
        StrPrompt s \<Rightarrow> Inr (encode tk s)
      | TensorPrompt d xs \<Rightarrow> (if d = 1 then Inr xs else Inl TypeError)
      | OtherPrompt \<Rightarrow> Inl TypeError)"

text \<open>
  The body of \<open>__call__\<close>, run to the end of the stream: the choices it yields, how it
  ends, the world it leaves, and the final value of \<open>finish_reasons\<close>.
\<close>

definition call_body ::
  "nat \<Rightarrow> 'o language_model \<Rightarrow> library \<Rightarrow> 'd tokenizer \<Rightarrow> prompt \<Rightarrow> int \<Rightarrow> int \<Rightarrow> real \<Rightarrow> real \<Rightarrow>
   int \<Rightarrow> int \<Rightarrow> bool \<Rightarrow> world \<Rightarrow>
   (choice list \<times> outcome \<times> world \<times> finish_reason option list) option" where
  "call_body fuel lm lib tk p min_tokens max_tokens temp topp n logprobs echo w =
     (case prompt_ids tk p of
        Inl e \<Rightarrow> Some ([], Raised e, w, [])
      | Inr input_ids \<Rightarrow>
          (let min_tokens' = max min_tokens 0;
               max_tokens' = max max_tokens 1;
               n' = nat (max n 1);
               logprobs' = max logprobs 0;
               finish_reasons = replicate n' None;
               decoders = replicate n' (new_decoder tk);
               (echoed, decoders') =
                  for_each input_ids (echo_token tk echo logprobs' n') decoders
           in case generate fuel lm lib (replicate n' input_ids) logprobs'
                     \<lparr>kw_min_new_tokens = Some min_tokens',
                      kw_max_new_tokens = Some max_tokens',
                      kw_temperature = Some temp,
                      kw_top_p = Some topp\<rparr> w of
                None \<Rightarrow> None
              | Some (rs, out, w') \<Rightarrow>
                  (let (generated, finish_reasons', decoders'') =
                         for_each rs (emit_step tk logprobs' n') (finish_reasons, decoders')
                   in Some (echoed @ generated, out, w', finish_reasons'))))"

text \<open>
  \<open>__call__\<close> contains \<open>yield\<close>, so it is a generator function: calling it runs no
  statement of the body and returns the generator object, whatever the arguments are. The
  body, prompt check included, runs when the stream is consumed.
\<close>

datatype 'a generator =
  Generator "nat \<Rightarrow> world \<Rightarrow> ('a list \<times> outcome \<times> world \<times> finish_reason option list) option"

definition call ::
  "'o language_model \<Rightarrow> library \<Rightarrow> 'd tokenizer \<Rightarrow> prompt \<Rightarrow> int \<Rightarrow> int \<Rightarrow> real \<Rightarrow> real \<Rightarrow>
   int \<Rightarrow> int \<Rightarrow> bool \<Rightarrow> choice generator result" where
  "call lm lib tk p min_tokens max_tokens temp topp n logprobs echo =
     Inr (Generator (\<lambda>fuel w.
       call_body fuel lm lib tk p min_tokens max_tokens temp topp n logprobs echo w))"

text \<open>Consuming a generator to its end.\<close>

definition consume ::
  "'a generator \<Rightarrow> nat \<Rightarrow> world \<Rightarrow>
   ('a list \<times> outcome \<times> world \<times> finish_reason option list) option" where
  "consume g fuel w = (case g of Generator run \<Rightarrow> run fuel w)"

text \<open>
  Two observations of the loop over the tuples of \<open>generate\<close>: the finish reason that a
  status code makes the loop store, and the value of \<open>finish_reasons\<close> after the loop has
  processed the tuples \<open>rs\<close>.
\<close>

definition stop_signal :: "int \<Rightarrow> finish_reason option" where
  "stop_signal s = (if s = 0 then Some Stop else if s = - 1 then Some Length else None)"

definition finish_reasons_after ::
  "'d tokenizer \<Rightarrow> int \<Rightarrow> nat \<Rightarrow> 'd list \<Rightarrow> step_result list \<Rightarrow> finish_reason option list" where
  "finish_reasons_after tk logprobs n decoders rs =
     fst (snd (for_each rs (emit_step tk logprobs n) (replicate n None, decoders)))"

subsection \<open>Example inputs\<close>

text \<open>Concrete configurations, models and worlds at which the theorems below are instantiated.\<close>

definition demo_config :: generation_config where
  "demo_config =
     \<lparr>min_new_tokens = Some 2, max_new_tokens = Some 3, temperature = Some (1 / 2),
      top_p = Some (9 / 10), pad_token_id = None, bos_token_id = None,
      eos_token_id = Some (EosInt 1), decoder_start_token_id = None\<rparr>"

definition demo_world :: world where
  "demo_world = \<lparr>invocations = [], clock = 0, inference_mode = False\<rparr>"

definition demo_library :: library where
  "demo_library = \<lparr>multinomial = (\<lambda>step i row. 0), warp = (\<lambda>p ids scores. scores)\<rparr>"

text \<open>A model whose forward pass always raises, and one whose first two passes raise.\<close>

definition failing_model :: "unit language_model" where
  "failing_model =
     \<lparr>lm_generation_config = demo_config, lm_is_encoder_decoder = False,
      lm_encoder = (\<lambda>ids k. Inr ()), lm_forward = (\<lambda>enc k. Inl (ModelError k))\<rparr>"

definition flaky_model :: "unit language_model" where
  "flaky_model =
     \<lparr>lm_generation_config = demo_config, lm_is_encoder_decoder = False,
      lm_encoder = (\<lambda>ids k. Inr ()),
      lm_forward = (\<lambda>enc k. if k < 2 then Inl (ModelError k) else Inr (\<lambda>row. [0, 1]))\<rparr>"

text \<open>A tokenizer that decodes the ids 1 and 2 to the same text.\<close>

definition demo_tokenizer :: "unit tokenizer" where
  "demo_tokenizer =
     \<lparr>encode = (\<lambda>s. []), decode = (\<lambda>t. if t = 3 then ''b'' else ''a''), new_decoder = (),
      decoder_decode = (\<lambda>d t. (if t = 3 then ''b'' else ''a'', d)), decoder_start = (\<lambda>d. 0)\<rparr>"

text \<open>
  A model over a two-token vocabulary whose forward pass always returns, and a library
  whose draws are scripted: replica 0 draws the token 1 on the step after a two-token
  prompt, and every other draw is the token 0.
\<close>

definition steady_model :: "unit language_model" where
  "steady_model =
     \<lparr>lm_generation_config = demo_config, lm_is_encoder_decoder = False,
      lm_encoder = (\<lambda>ids k. Inr ()), lm_forward = (\<lambda>enc k. Inr (\<lambda>row. [0, 0]))\<rparr>"

definition scripted_library :: library where
  "scripted_library =
     \<lparr>multinomial = (\<lambda>step i row. if step = 2 \<and> i = 0 then 1 else 0),
      warp = (\<lambda>p ids scores. scores)\<rparr>"

definition demo_kwargs :: gen_kwargs where
  "demo_kwargs =
     \<lparr>kw_min_new_tokens = Some 0, kw_max_new_tokens = Some 2, kw_temperature = Some 1,
      kw_top_p = Some 1\<rparr>"

definition demo_tuple :: "int list \<Rightarrow> step_result" where
  "demo_tuple st =
     \<lparr>tokens = [1, 0], token_logprobs = [ln (1 / 2 + 1 / 10 ^ 7), ln (1 / 2 + 1 / 10 ^ 7)],
      top_tokens = [[], []], top_logprobs = [[], []], status = st\<rparr>"

text \<open>The context of the loop for that model, and the two tuples of its runs.\<close>

definition demo_run_ctx :: "int \<Rightarrow> unit gen_ctx" where
  "demo_run_ctx m =
     \<lparr>ctx_config = demo_config\<lparr>min_new_tokens := Some 0, max_new_tokens := Some m,
                temperature := Some 1, top_p := Some 1\<rparr>,
      ctx_logprobs = 0, ctx_pad_token_id = Some 1, ctx_eos_token_id = Some [1],
      ctx_input_length = 2, ctx_processor = [], ctx_encoder_outputs = None\<rparr>"

text \<open>The steady model with the end-of-sequence ids \<open>[3]\<close>.\<close>

definition eos3_model :: "unit language_model" where
  "eos3_model =
     \<lparr>lm_generation_config = demo_config\<lparr>eos_token_id := Some (EosList [3])\<rparr>,
      lm_is_encoder_decoder = False, lm_encoder = (\<lambda>ids k. Inr ()),
      lm_forward = (\<lambda>enc k. Inr (\<lambda>row. [0, 0]))\<rparr>"

text \<open>The context of the loop for that model and an empty prompt, and the tuple of its run.\<close>

definition eos3_ctx :: "unit gen_ctx" where
  "eos3_ctx =
     \<lparr>ctx_config = demo_config\<lparr>eos_token_id := Some (EosList [3]), min_new_tokens := Some 0,
                max_new_tokens := Some 1, temperature := Some 1, top_p := Some 1\<rparr>,
      ctx_logprobs = 0, ctx_pad_token_id = Some 3, ctx_eos_token_id = Some [3],
      ctx_input_length = 1, ctx_processor = [], ctx_encoder_outputs = None\<rparr>"

definition eos3_tuple :: step_result where
  "eos3_tuple =
     \<lparr>tokens = [0], token_logprobs = [ln (1 / 2 + 1 / 10 ^ 7)], top_tokens = [[]],
      top_logprobs = [[]], status = [- 1]\<rparr>"

text \<open>
  A model over a three-token vocabulary whose next-token distribution is always
  \<open>[4/7, 2/7, 1/7]\<close>, a library whose every draw is the least likely token 2, and a
  tokenizer that decodes the three tokens to three different texts.
\<close>

definition ranked_model :: "unit language_model" where
  "ranked_model =
     \<lparr>lm_generation_config = demo_config, lm_is_encoder_decoder = False,
      lm_encoder = (\<lambda>ids k. Inr ()), lm_forward = (\<lambda>enc k. Inr (\<lambda>row. [ln 4, ln 2, 0]))\<rparr>"



text \<open>The tuple of a step of that model with \<open>logprobs = 2\<close>.\<close>

definition ranked_tuple :: "int list \<Rightarrow> step_result" where
  "ranked_tuple st =
     \<lparr>tokens = [2], token_logprobs = [ln (1 / 7 + 1 / 10 ^ 7)], top_tokens = [[0, 1]],
      top_logprobs = [[ln (4 / 7 + 1 / 10 ^ 7), ln (2 / 7 + 1 / 10 ^ 7)]], status = st\<rparr>"

text \<open>The context of the loop for that model with \<open>logprobs = 2\<close>.\<close>

definition ranked_ctx :: "unit gen_ctx" where
  "ranked_ctx = (demo_run_ctx 2)\<lparr>ctx_logprobs := 2\<rparr>"

section \<open>The logits processor\<close>

lemma min_new_tokens_part_eq:
  "min_new_tokens_part config L =
     (case (min_new_tokens config, eos_token_id config) of
        (Some m, Some e) \<Rightarrow> (if 0 < m then [MinNewTokensLengthLogitsProcessor L m e] else [])
      | _ \<Rightarrow> [])"
  by (cases "min_new_tokens config"; cases "eos_token_id config")
     (simp_all add: min_new_tokens_part_def)

lemma min_new_tokens_part_mem:
  "x \<in> set (min_new_tokens_part config L) \<longleftrightarrow>
     (\<exists>m e. x = MinNewTokensLengthLogitsProcessor L m e \<and> min_new_tokens config = Some m \<and> 0 < m
        \<and> eos_token_id config = Some e)"
  by (cases "min_new_tokens config"; cases "eos_token_id config")
     (auto simp: min_new_tokens_part_eq)

lemma temperature_part_mem:
  "x \<in> set (temperature_part config) \<longleftrightarrow>
     (\<exists>t. x = TemperatureLogitsWarper t \<and> temperature config = Some t \<and> 0 < t \<and> t \<noteq> 1)"
  by (auto simp: temperature_part_def split: option.split)

lemma top_p_part_mem:
  "x \<in> set (top_p_part config) \<longleftrightarrow>
     (\<exists>p. x = TopPLogitsWarper p \<and> top_p config = Some p \<and> 0 < p \<and> p < 1)"
  by (auto simp: top_p_part_def split: option.split)

lemma logits_processor_mem:
  "x \<in> set (logits_processor config L) \<longleftrightarrow>
     x \<in> set (min_new_tokens_part config L) \<or> x \<in> set (temperature_part config)
     \<or> x \<in> set (top_p_part config)"
  by (simp add: logits_processor_def)

lemma logits_processor_subseq:
  "\<exists>m e t p. subseq (logits_processor config L)
          [MinNewTokensLengthLogitsProcessor L m e, TemperatureLogitsWarper t, TopPLogitsWarper p]"
proof -
  have a: "\<exists>m e. subseq (min_new_tokens_part config L) [MinNewTokensLengthLogitsProcessor L m e]"
    by (cases "min_new_tokens config"; cases "eos_token_id config")
       (auto simp: min_new_tokens_part_eq)
  have b: "\<exists>t. subseq (temperature_part config) [TemperatureLogitsWarper t]"
    by (auto simp: temperature_part_def split: option.split)
  have c: "\<exists>p. subseq (top_p_part config) [TopPLogitsWarper p]"
    by (auto simp: top_p_part_def split: option.split)
  from a b c obtain m e t p where
    s1: "subseq (min_new_tokens_part config L) [MinNewTokensLengthLogitsProcessor L m e]" and
    s2: "subseq (temperature_part config) [TemperatureLogitsWarper t]" and
    s3: "subseq (top_p_part config) [TopPLogitsWarper p]" by blast
  have "subseq ((min_new_tokens_part config L @ temperature_part config) @ top_p_part config)
       (([MinNewTokensLengthLogitsProcessor L m e] @ [TemperatureLogitsWarper t]) @ [TopPLogitsWarper p])"
    by (rule list_emb_append_mono [OF list_emb_append_mono [OF s1 s2] s3])
  then have "subseq (logits_processor config L)
     [MinNewTokensLengthLogitsProcessor L m e, TemperatureLogitsWarper t, TopPLogitsWarper p]"
    by (simp add: logits_processor_def del: subseq_Cons2_iff)
  then show ?thesis by blast
qed

text \<open>
  Claim C4. \<open>logits_processor\<close> builds a list of at most three processors, a sublist of
  minimum-new-tokens, temperature, top-p in this order. The minimum-new-tokens processor
  is a member exactly if \<open>min_new_tokens\<close> is set and positive and an end-of-sequence id
  is configured; the temperature warper exactly if \<open>temperature\<close> is set, positive and
  different from 1; the top-p warper exactly if \<open>top_p\<close> is set and strictly between 0
  and 1, so \<open>top_p = 1\<close> disables it. Running the list applies the three stages in that
  order.
\<close>

theorem logits_processor_stages:
  "length (logits_processor config L) \<le> 3
   \<and> (\<exists>m e t p. subseq (logits_processor config L)
          [MinNewTokensLengthLogitsProcessor L m e, TemperatureLogitsWarper t, TopPLogitsWarper p])
   \<and> (\<forall>l m e. MinNewTokensLengthLogitsProcessor l m e \<in> set (logits_processor config L)
          \<longleftrightarrow> l = L \<and> min_new_tokens config = Some m \<and> 0 < m \<and> eos_token_id config = Some e)
   \<and> (\<forall>t. TemperatureLogitsWarper t \<in> set (logits_processor config L)
          \<longleftrightarrow> temperature config = Some t \<and> 0 < t \<and> t \<noteq> 1)
   \<and> (\<forall>p. TopPLogitsWarper p \<in> set (logits_processor config L)
          \<longleftrightarrow> top_p config = Some p \<and> 0 < p \<and> p < 1)
   \<and> (top_p config = Some 1 \<longrightarrow> (\<forall>p. TopPLogitsWarper p \<notin> set (logits_processor config L)))
   \<and> run_processor wp (logits_processor config L) ids scores
       = run_processor wp (top_p_part config) ids
           (run_processor wp (temperature_part config) ids
              (run_processor wp (min_new_tokens_part config L) ids scores))"
proof (intro conjI allI impI)
  show "length (logits_processor config L) \<le> 3"
    by (cases "min_new_tokens config"; cases "eos_token_id config")
       (simp_all add: logits_processor_def min_new_tokens_part_eq temperature_part_def
          top_p_part_def split: option.split)
  show "\<exists>m e t p. subseq (logits_processor config L)
          [MinNewTokensLengthLogitsProcessor L m e, TemperatureLogitsWarper t, TopPLogitsWarper p]"
    by (rule logits_processor_subseq)
  show "MinNewTokensLengthLogitsProcessor l m e \<in> set (logits_processor config L)
          \<longleftrightarrow> l = L \<and> min_new_tokens config = Some m \<and> 0 < m \<and> eos_token_id config = Some e"
    for l m e
    by (auto simp: logits_processor_mem min_new_tokens_part_mem temperature_part_mem top_p_part_mem)
  show "TemperatureLogitsWarper t \<in> set (logits_processor config L)
          \<longleftrightarrow> temperature config = Some t \<and> 0 < t \<and> t \<noteq> 1" for t
    by (auto simp: logits_processor_mem min_new_tokens_part_mem temperature_part_mem top_p_part_mem)
  show "TopPLogitsWarper p \<in> set (logits_processor config L)
          \<longleftrightarrow> top_p config = Some p \<and> 0 < p \<and> p < 1" for p
    by (auto simp: logits_processor_mem min_new_tokens_part_mem temperature_part_mem top_p_part_mem)
  show "TopPLogitsWarper p \<notin> set (logits_processor config L)" if "top_p config = Some 1" for p
    using that
    by (auto simp: logits_processor_mem min_new_tokens_part_mem temperature_part_mem top_p_part_mem)
  show "run_processor wp (logits_processor config L) ids scores
       = run_processor wp (top_p_part config) ids
           (run_processor wp (temperature_part config) ids
              (run_processor wp (min_new_tokens_part config L) ids scores))"
    by (simp add: logits_processor_def run_processor_def)
qed

text \<open>The theorem at a configuration with all three stages, and at one with \<open>top_p = 1\<close>.\<close>

theorem logits_processor_stages_witness:
  "length (logits_processor demo_config 2) \<le> 3
   \<and> MinNewTokensLengthLogitsProcessor 2 2 (EosInt 1) \<in> set (logits_processor demo_config 2)
   \<and> TemperatureLogitsWarper (1 / 2) \<in> set (logits_processor demo_config 2)
   \<and> TopPLogitsWarper (9 / 10) \<in> set (logits_processor demo_config 2)
   \<and> top_p (demo_config\<lparr>top_p := Some 1\<rparr>) = Some 1
   \<and> TopPLogitsWarper 1 \<notin> set (logits_processor (demo_config\<lparr>top_p := Some 1\<rparr>) 2)"
  using logits_processor_stages [of demo_config 2]
    logits_processor_stages [of "demo_config\<lparr>top_p := Some 1\<rparr>" 2]
  by (simp add: demo_config_def)

section \<open>The resilient inference invoker\<close>

lemma infer_body_eq:
  "infer_body f w =
     (f (length (invocations w)), w\<lparr>invocations := invocations w @ [True]\<rparr>)"
  by (simp add: infer_body_def invoke_def)

lemma retry_loop_first_result:
  "j \<le> left \<Longrightarrow> \<forall>i<j. isl (f (length (invocations w) + i)) \<Longrightarrow>
   f (length (invocations w) + j) = r \<Longrightarrow> \<not> isl r \<or> j = left \<Longrightarrow>
   retry_loop left d (infer_body f) w =
     ((case r of Inl e \<Rightarrow> Inl (RetryError e) | Inr v \<Rightarrow> Inr v),
      w\<lparr>invocations := invocations w @ replicate (Suc j) True, clock := clock w + j * d\<rparr>)"
proof (induction left arbitrary: j w)
  case 0
  then show ?case by (cases r) (simp_all add: infer_body_eq)
next
  case (Suc left)
  show ?case
  proof (cases j)
    case 0
    with Suc.prems show ?thesis by (cases r) (simp_all add: infer_body_eq)
  next
    case (Suc k)
    let ?w = "w\<lparr>invocations := invocations w @ [True], clock := clock w + d\<rparr>"
    from Suc Suc.prems(2) have "isl (f (length (invocations w)))" by auto
    then obtain e0 where f0: "f (length (invocations w)) = Inl e0"
      by (cases "f (length (invocations w))") auto
    have k: "k \<le> left" using Suc Suc.prems(1) by simp
    have fails: "\<forall>i<k. isl (f (length (invocations ?w) + i))"
    proof (intro allI impI)
      fix i assume "i < k"
      then have "Suc i < j" using Suc by simp
      with Suc.prems(2) have "isl (f (length (invocations w) + Suc i))" by blast
      then show "isl (f (length (invocations ?w) + i))" by simp
    qed
    have res: "f (length (invocations ?w) + k) = r"
      using Suc.prems(3) Suc by simp
    have last: "\<not> isl r \<or> k = left" using Suc.prems(4) Suc by simp
    have "retry_loop left d (infer_body f) ?w =
       ((case r of Inl e \<Rightarrow> Inl (RetryError e) | Inr v \<Rightarrow> Inr v),
        ?w\<lparr>invocations := invocations ?w @ replicate (Suc k) True,
                  clock := clock ?w + k * d\<rparr>)"
      by (rule Suc.IH [OF k fails res last])
    moreover have "retry_loop (Suc left) d (infer_body f) w = retry_loop left d (infer_body f) ?w"
      using f0 by (simp add: infer_body_eq)
    moreover have "?w\<lparr>invocations := invocations ?w @ replicate (Suc k) True,
                  clock := clock ?w + k * d\<rparr> =
        w\<lparr>invocations := invocations w @ replicate (Suc j) True, clock := clock w + j * d\<rparr>"
      using Suc by (simp add: replicate_app_Cons_same)
    ultimately show ?thesis by simp
  qed
qed

lemma infer_succeeds:
  assumes "j < 5" and "\<forall>i<j. isl (f (length (invocations w) + i))"
    and "f (length (invocations w) + j) = Inr v"
  shows "infer f w =
     (Inr v, w\<lparr>invocations := invocations w @ replicate (Suc j) True, clock := clock w + j\<rparr>)"
proof -
  have "j \<le> 4" using assms(1) by simp
  from retry_loop_first_result [OF this assms(2) assms(3), of 1] show ?thesis
    by (simp add: infer_def retry_def)
qed

lemma infer_exhausted:
  assumes "\<forall>i<4. isl (f (length (invocations w) + i))"
    and "f (length (invocations w) + 4) = Inl e"
  shows "infer f w =
     (Inl (RetryError e),
      w\<lparr>invocations := invocations w @ replicate 5 True, clock := clock w + 4\<rparr>)"
proof -
  from retry_loop_first_result [OF order_refl assms(1) assms(2), of 1] show ?thesis
    by (simp add: infer_def retry_def numeral_eq_Suc)
qed

lemma failing_init:
  "generate_init failing_model [[7, 8]] 0 demo_kwargs w
     = (Inr (demo_run_ctx 2, [[7, 8]], [1]), w)"
  by (simp add: generate_init_def config_update_def failing_model_def demo_kwargs_def
      demo_run_ctx_def demo_config_def normalize_eos_def collect_pad_def first_id_def bind_r_def
      seed_empty_def ncols_def prepare_encoder_decoder_def logits_processor_def
      min_new_tokens_part_def temperature_part_def top_p_part_def numeral_eq_Suc)

text \<open>
  Claim C8, as amended. Let the first \<open>j\<close> forward passes that \<open>infer\<close> attempts raise. If
  \<open>j < 5\<close> and the next pass returns, \<open>infer\<close> returns its value after \<open>j + 1\<close> passes, one per
  attempt, each logged with inference mode on, and after \<open>j\<close> delays of one time unit. If
  the fifth pass raises too, \<open>infer\<close> has run exactly five passes in inference mode with
  four delays, and what reaches the caller is not the error of the fifth attempt but
  tenacity's \<open>RetryError\<close>, which holds that error (the decorator of line 176 does not set
  \<open>reraise\<close>); the decode loop, in whatever state it calls \<open>infer\<close>, then yields nothing for
  this step and ends with the \<open>RetryError\<close>.
\<close>

theorem infer_retry_policy:
  assumes "f = lm_forward lm (ctx_encoder_outputs ctx)"
    and "\<forall>i<j. isl (f (length (invocations w) + i))"
  shows "(j < 5 \<and> f (length (invocations w) + j) = Inr g \<longrightarrow>
            infer f w =
              (Inr g, w\<lparr>invocations := invocations w @ replicate (Suc j) True,
                        clock := clock w + j\<rparr>))
       \<and> (j = 4 \<and> f (length (invocations w) + j) = Inl e \<longrightarrow>
            infer f w =
              (Inl (RetryError e), w\<lparr>invocations := invocations w @ replicate 5 True,
                                     clock := clock w + 4\<rparr>)
            \<and> gen_loop (Suc fuel) lm lib ctx input_ids unfinished w =
                Some ([], Raised (RetryError e),
                      w\<lparr>invocations := invocations w @ replicate 5 True,
                        clock := clock w + 4\<rparr>))"
proof (intro conjI impI)
  assume "j < 5 \<and> f (length (invocations w) + j) = Inr g"
  then show "infer f w =
      (Inr g, w\<lparr>invocations := invocations w @ replicate (Suc j) True, clock := clock w + j\<rparr>)"
    using infer_succeeds [of j f w g] assms(2) by auto
next
  assume a: "j = 4 \<and> f (length (invocations w) + j) = Inl e"
  then have ex: "infer f w =
      (Inl (RetryError e), w\<lparr>invocations := invocations w @ replicate 5 True,
                             clock := clock w + 4\<rparr>)"
    using infer_exhausted [of f w e] assms(2) by auto
  then show "infer f w =
      (Inl (RetryError e), w\<lparr>invocations := invocations w @ replicate 5 True,
                             clock := clock w + 4\<rparr>)" .
  from ex show "gen_loop (Suc fuel) lm lib ctx input_ids unfinished w =
                Some ([], Raised (RetryError e),
                      w\<lparr>invocations := invocations w @ replicate 5 True,
                        clock := clock w + 4\<rparr>)"
    using assms(1) by simp
qed

text \<open>
  The theorem at a model that always raises, in the context that \<open>generate\<close> builds for
  it, and at a model that returns on the third attempt.
\<close>

theorem infer_retry_policy_witness:
  "generate_init failing_model [[7, 8]] 0 demo_kwargs demo_world
     = (Inr (demo_run_ctx 2, [[7, 8]], [1]), demo_world)
   \<and> infer (lm_forward failing_model None) demo_world =
     (Inl (RetryError (ModelError 4)),
      \<lparr>invocations = [True, True, True, True, True], clock = 4, inference_mode = False\<rparr>)
   \<and> gen_loop 1 failing_model demo_library (demo_run_ctx 2) [[7, 8]] [1] demo_world =
       Some ([], Raised (RetryError (ModelError 4)),
             \<lparr>invocations = [True, True, True, True, True], clock = 4, inference_mode = False\<rparr>)
   \<and> fst (infer (lm_forward flaky_model None) demo_world) = Inr (\<lambda>row. [0, 1])
   \<and> snd (infer (lm_forward flaky_model None) demo_world) =
       \<lparr>invocations = [True, True, True], clock = 2, inference_mode = False\<rparr>"
proof -
  have "generate_init failing_model [[7, 8]] 0 demo_kwargs demo_world
     = (Inr (demo_run_ctx 2, [[7, 8]], [1]), demo_world)"
    by (rule failing_init)
  then show ?thesis
    using infer_retry_policy [of "lm_forward failing_model None" failing_model "demo_run_ctx 2" 4
        demo_world "\<lambda>row. []" "ModelError 4" 0 demo_library "[[7, 8]]" "[1]"]
      infer_retry_policy [of "lm_forward flaky_model None" flaky_model "demo_run_ctx 2" 2
        demo_world "\<lambda>row. [0, 1]" "ModelError 0" 0 demo_library "[]" "[]"]
    by (simp add: failing_model_def flaky_model_def demo_run_ctx_def demo_world_def
        numeral_eq_Suc)
qed

text \<open>
  Claim C8 as stated fails: the fifth attempt of the model that always raises ends with
  \<open>ModelError 4\<close>, and neither \<open>infer\<close> nor \<open>generate\<close> hands that error to its caller; both
  raise the \<open>RetryError\<close> that wraps it.
\<close>

theorem final_error_wrapped_counterexample:
  "lm_forward failing_model None 4 = Inl (ModelError 4)
   \<and> fst (infer (lm_forward failing_model None) demo_world) \<noteq> Inl (ModelError 4)
   \<and> fst (infer (lm_forward failing_model None) demo_world) = Inl (RetryError (ModelError 4))
   \<and> generate 1 failing_model demo_library [[7, 8]] 0 demo_kwargs demo_world
       \<noteq> Some ([], Raised (ModelError 4),
               \<lparr>invocations = [True, True, True, True, True], clock = 4,
                 inference_mode = False\<rparr>)
   \<and> generate 1 failing_model demo_library [[7, 8]] 0 demo_kwargs demo_world
       = Some ([], Raised (RetryError (ModelError 4)),
               \<lparr>invocations = [True, True, True, True, True], clock = 4,
                 inference_mode = False\<rparr>)"
proof -
  have inf: "infer (lm_forward failing_model None) demo_world =
     (Inl (RetryError (ModelError 4)),
      \<lparr>invocations = [True, True, True, True, True], clock = 4, inference_mode = False\<rparr>)"
    using infer_exhausted [of "lm_forward failing_model None" demo_world "ModelError 4"]
    by (simp add: failing_model_def demo_world_def numeral_eq_Suc)
  have "generate 1 failing_model demo_library [[7, 8]] 0 demo_kwargs demo_world
       = Some ([], Raised (RetryError (ModelError 4)),
               \<lparr>invocations = [True, True, True, True, True], clock = 4,
                 inference_mode = False\<rparr>)"
    using inf by (simp add: generate_def failing_init demo_run_ctx_def)
  with inf show ?thesis by (simp add: failing_model_def)
qed

section \<open>One decode step\<close>

lemma sequence_r_length: "sequence_r rs = Inr vs \<Longrightarrow> length vs = length rs"
  by (induction rs arbitrary: vs) (auto split: sum.splits)


lemma next_token_probs_length [simp]: "length (next_token_probs lib ctx ids g) = length ids"
  by (simp add: next_token_probs_def)

lemma select_tokens_length:
  "select_tokens lib config step probs = Inr toks \<Longrightarrow> length toks = length probs"
  by (auto simp: select_tokens_def dest: sequence_r_length split: if_splits)

lemma pad_finished_length [simp]:
  "length toks = length unfinished \<Longrightarrow> length (pad_finished pad toks unfinished) = length toks"
  by (simp add: pad_finished_def split: option.split)

lemma mark_eos_length:
  "mark_eos eos unfinished toks = Inr u \<Longrightarrow> length toks = length unfinished \<Longrightarrow>
   length u = length unfinished"
  by (auto simp: mark_eos_def split: option.splits if_splits)

lemma step_status_length:
  "step_status mx k u = Inr st \<Longrightarrow> length st = length u"
  by (auto simp: step_status_def split: option.splits if_splits)

lemma decode_step_Inr:
  assumes "decode_step lib ctx ids unf g = Inr (r, ids', unf')"
  shows "\<exists>toks ps tops.
      select_tokens lib (ctx_config ctx) (ncols ids) (next_token_probs lib ctx ids g) = Inr toks
    \<and> sequence_r (map2 gather (next_token_probs lib ctx ids g) toks) = Inr ps
    \<and> sequence_r (map (topk (ctx_logprobs ctx)) (next_token_probs lib ctx ids g)) = Inr tops
    \<and> tokens r = pad_finished (ctx_pad_token_id ctx) toks unf
    \<and> ids' = map2 (\<lambda>row t. row @ [t]) ids (tokens r)
    \<and> mark_eos (ctx_eos_token_id ctx) unf (tokens r) = Inr unf'
    \<and> step_status (max_new_tokens (ctx_config ctx)) (int (ncols ids') - ctx_input_length ctx) unf'
         = Inr (status r)
    \<and> token_logprobs r = map (\<lambda>p. ln (p + 1 / 10 ^ 7)) ps
    \<and> top_tokens r = map snd tops
    \<and> top_logprobs r = map (\<lambda>(vals, idx). map (\<lambda>p. ln (p + 1 / 10 ^ 7)) vals) tops"
  using assms
  unfolding decode_step_def Let_def bind_r_def
  by (auto split: sum.splits)

lemma pad_finished_nth:
  "length toks = length unfinished \<Longrightarrow> i < length toks \<Longrightarrow>
   pad_finished pad toks unfinished ! i =
     (case pad of None \<Rightarrow> toks ! i
      | Some p \<Rightarrow> toks ! i * unfinished ! i + p * (1 - unfinished ! i))"
  by (simp add: pad_finished_def split: option.split)


lemma fold_max_le: "fold max ys (x::int) \<le> c \<longleftrightarrow> x \<le> c \<and> (\<forall>y\<in>set ys. y \<le> c)"
  by (induction ys arbitrary: x) auto

lemma tensor_max_Inr:
  "tensor_max xs = Inr mx \<Longrightarrow> xs \<noteq> [] \<and> (mx \<le> 0 \<longleftrightarrow> (\<forall>x\<in>set xs. x \<le> 0))"
  by (cases xs) (auto simp: tensor_max_def fold_max_le)

lemma tensor_max_Inl: "tensor_max xs = Inl e \<Longrightarrow> xs = [] \<and> e = RuntimeError"
  by (cases xs) (auto simp: tensor_max_def)

lemma ncols_append_tokens:
  "ids \<noteq> [] \<Longrightarrow> length toks = length ids \<Longrightarrow>
   ncols (map2 (\<lambda>row t. row @ [t]) ids toks) = Suc (ncols ids)"
  by (cases ids; cases toks) (simp_all add: ncols_def)

lemma mark_eos_nth:
  "mark_eos eos unf toks = Inr u \<Longrightarrow> length toks = length unf \<Longrightarrow> i < length unf \<Longrightarrow>
   u ! i = (case eos of None \<Rightarrow> unf ! i
            | Some es \<Rightarrow> unf ! i * int (length (filter (\<lambda>e. toks ! i \<noteq> e) es)))"
  by (auto simp: mark_eos_def split: option.splits if_splits)

lemma step_status_nth:
  "step_status mx k u = Inr st \<Longrightarrow> i < length u \<Longrightarrow>
   \<exists>m. mx = Some m \<and> st ! i = (if m \<le> k then - (u ! i) else u ! i)"
  by (auto simp: step_status_def split: option.splits if_splits)

text \<open>The shape of a successful step.\<close>

lemma decode_step_shape:
  assumes step: "decode_step lib ctx ids unf g = Inr (r, ids', unf')"
    and len: "length unf = length ids"
  shows "length (tokens r) = length ids" "length ids' = length ids" "length unf' = length ids"
    "length (status r) = length ids" "ids \<noteq> [] \<Longrightarrow> ncols ids' = Suc (ncols ids)"
    "ids' = map2 (\<lambda>row t. row @ [t]) ids (tokens r)"
proof -
  from decode_step_Inr [OF step] obtain toks where
    sel: "select_tokens lib (ctx_config ctx) (ncols ids) (next_token_probs lib ctx ids g) = Inr toks" and
    tok: "tokens r = pad_finished (ctx_pad_token_id ctx) toks unf" and
    ids': "ids' = map2 (\<lambda>row t. row @ [t]) ids (tokens r)" and
    eos: "mark_eos (ctx_eos_token_id ctx) unf (tokens r) = Inr unf'" and
    st: "step_status (max_new_tokens (ctx_config ctx)) (int (ncols ids') - ctx_input_length ctx) unf'
         = Inr (status r)"
    by blast
  have ltoks: "length toks = length ids" using select_tokens_length [OF sel] by simp
  show a: "length (tokens r) = length ids" using tok ltoks len by simp
  show "length ids' = length ids" using ids' a by simp
  show c: "length unf' = length ids" using mark_eos_length [OF eos] a len by simp
  show "length (status r) = length ids" using step_status_length [OF st] c by simp
  show "ids \<noteq> [] \<Longrightarrow> ncols ids' = Suc (ncols ids)"
    using ncols_append_tokens [of ids "tokens r"] a ids' by simp
  show "ids' = map2 (\<lambda>row t. row @ [t]) ids (tokens r)" by (rule ids')
qed

text \<open>What a successful step does to one replica.\<close>

lemma decode_step_replica:
  assumes step: "decode_step lib ctx ids unf g = Inr (r, ids', unf')"
    and len: "length unf = length ids" and i: "i < length ids"
  shows "\<exists>t m. max_new_tokens (ctx_config ctx) = Some m
      \<and> tokens r ! i =
           (case ctx_pad_token_id ctx of None \<Rightarrow> t
            | Some p \<Rightarrow> t * unf ! i + p * (1 - unf ! i))
      \<and> unf' ! i =
           (case ctx_eos_token_id ctx of None \<Rightarrow> unf ! i
            | Some es \<Rightarrow> unf ! i * int (length (filter (\<lambda>e. tokens r ! i \<noteq> e) es)))
      \<and> status r ! i =
           (if m \<le> int (ncols ids) + 1 - ctx_input_length ctx then - (unf' ! i) else unf' ! i)"
proof -
  from decode_step_Inr [OF step] obtain toks where
    sel: "select_tokens lib (ctx_config ctx) (ncols ids) (next_token_probs lib ctx ids g) = Inr toks" and
    tok: "tokens r = pad_finished (ctx_pad_token_id ctx) toks unf" and
    eos: "mark_eos (ctx_eos_token_id ctx) unf (tokens r) = Inr unf'" and
    st: "step_status (max_new_tokens (ctx_config ctx)) (int (ncols ids') - ctx_input_length ctx) unf'
         = Inr (status r)"
    by blast
  have ltoks: "length toks = length ids" using select_tokens_length [OF sel] by simp
  have ne: "ids \<noteq> []" using i by auto
  note shape = decode_step_shape [OF step len]
  have a: "tokens r ! i =
           (case ctx_pad_token_id ctx of None \<Rightarrow> toks ! i
            | Some p \<Rightarrow> toks ! i * unf ! i + p * (1 - unf ! i))"
    using pad_finished_nth [of toks unf i] ltoks len i tok by simp
  have b: "unf' ! i =
           (case ctx_eos_token_id ctx of None \<Rightarrow> unf ! i
            | Some es \<Rightarrow> unf ! i * int (length (filter (\<lambda>e. tokens r ! i \<noteq> e) es)))"
    using mark_eos_nth [OF eos, of i] shape(1) len i by simp
  from step_status_nth [OF st, of i] shape(3) i obtain m where
    m: "max_new_tokens (ctx_config ctx) = Some m" and
    c: "status r ! i = (if m \<le> int (ncols ids') - ctx_input_length ctx then - (unf' ! i) else unf' ! i)"
    by auto
  have "int (ncols ids') = int (ncols ids) + 1" using shape(5) ne by simp
  with c have "status r ! i =
           (if m \<le> int (ncols ids) + 1 - ctx_input_length ctx then - (unf' ! i) else unf' ! i)"
    by simp
  with a b m show ?thesis by blast
qed

text \<open>The shape of a run of the loop.\<close>

lemma gen_loop_cases:
  assumes "gen_loop (Suc fuel) lm lib ctx ids unf w = Some (rs, out, w')"
  shows "(\<exists>e. rs = [] \<and> out = Raised e)
       \<or> (\<exists>g w1 r ids' unf'.
            infer (lm_forward lm (ctx_encoder_outputs ctx)) w = (Inr g, w1)
          \<and> decode_step lib ctx ids unf g = Inr (r, ids', unf')
          \<and> ((rs = [r] \<and> w' = w1
                \<and> (status r = [] \<and> out = Raised RuntimeError
                    \<or> status r \<noteq> [] \<and> (\<forall>x\<in>set (status r). x \<le> 0) \<and> out = StopIteration))
              \<or> (\<exists>rs'. rs = r # rs' \<and> \<not> (\<forall>x\<in>set (status r). x \<le> 0)
                    \<and> gen_loop fuel lm lib ctx ids' unf' w1 = Some (rs', out, w'))))"
  using assms
  by (auto split: prod.splits sum.splits if_splits option.splits
      dest!: tensor_max_Inr tensor_max_Inl)

lemma gen_loop_nonempty:
  assumes "gen_loop (Suc fuel) lm lib ctx ids unf w = Some (rs, out, w')" and "rs \<noteq> []"
  shows "\<exists>g w1 r ids' unf' rs'.
            infer (lm_forward lm (ctx_encoder_outputs ctx)) w = (Inr g, w1)
          \<and> decode_step lib ctx ids unf g = Inr (r, ids', unf')
          \<and> rs = r # rs'
          \<and> (rs' = [] \<or> gen_loop fuel lm lib ctx ids' unf' w1 = Some (rs', out, w'))"
  using gen_loop_cases [OF assms(1)] assms(2) by blast

section \<open>Runs of the decode loop\<close>

lemma ex_le_Suc_Cons:
  "(\<exists>j\<le>Suc k. P ((r # rs) ! j)) \<longleftrightarrow> P r \<or> (\<exists>j\<le>k. P (rs ! j))"
proof
  assume "\<exists>j\<le>Suc k. P ((r # rs) ! j)"
  then obtain j where j: "j \<le> Suc k" "P ((r # rs) ! j)" by blast
  then show "P r \<or> (\<exists>j\<le>k. P (rs ! j))" by (cases j) auto
next
  assume "P r \<or> (\<exists>j\<le>k. P (rs ! j))"
  then show "\<exists>j\<le>Suc k. P ((r # rs) ! j)"
  proof
    assume "P r"
    then have "P ((r # rs) ! 0)" by simp
    then show ?thesis by blast
  next
    assume "\<exists>j\<le>k. P (rs ! j)"
    then obtain j where "j \<le> k" "P (rs ! j)" by blast
    then have "Suc j \<le> Suc k" "P ((r # rs) ! Suc j)" by simp_all
    then show ?thesis by blast
  qed
qed

text \<open>A replica whose flag is 0 stays at 0, reports 0 and emits the pad id.\<close>

lemma decode_step_finished:
  assumes step: "decode_step lib ctx ids unf g = Inr (r, ids', unf')"
    and len: "length unf = length ids" and i: "i < length ids" and z: "unf ! i = 0"
  shows "unf' ! i = 0" "status r ! i = 0" "ctx_pad_token_id ctx = Some p \<Longrightarrow> tokens r ! i = p"
proof -
  from decode_step_replica [OF step len i] obtain t m where
    tok: "tokens r ! i =
           (case ctx_pad_token_id ctx of None \<Rightarrow> t
            | Some p \<Rightarrow> t * unf ! i + p * (1 - unf ! i))" and
    u: "unf' ! i =
           (case ctx_eos_token_id ctx of None \<Rightarrow> unf ! i
            | Some es \<Rightarrow> unf ! i * int (length (filter (\<lambda>e. tokens r ! i \<noteq> e) es)))" and
    st: "status r ! i =
           (if m \<le> int (ncols ids) + 1 - ctx_input_length ctx then - (unf' ! i) else unf' ! i)"
    by blast
  show a: "unf' ! i = 0" using u z by (simp split: option.split)
  show "status r ! i = 0" using st a by simp
  show "ctx_pad_token_id ctx = Some p \<Longrightarrow> tokens r ! i = p" using tok z by simp
qed

lemma decode_step_status_zero:
  assumes step: "decode_step lib ctx ids unf g = Inr (r, ids', unf')"
    and len: "length unf = length ids" and i: "i < length ids"
  shows "status r ! i = 0 \<longleftrightarrow> unf' ! i = 0"
  using decode_step_replica [OF step len i] by (auto split: if_splits)

lemma gen_loop_finished:
  assumes "gen_loop fuel lm lib ctx ids unf w = Some (rs, out, w')"
    and "length unf = length ids" and "i < length ids" and "unf ! i = 0" and "k < length rs"
  shows "status (rs ! k) ! i = 0 \<and> (ctx_pad_token_id ctx = Some p \<longrightarrow> tokens (rs ! k) ! i = p)"
  using assms
proof (induction fuel arbitrary: ids unf w rs k)
  case 0
  then show ?case by simp
next
  case (Suc fuel)
  have "rs \<noteq> []" using Suc.prems(5) by auto
  from gen_loop_nonempty [OF Suc.prems(1) this] obtain g w1 r ids' unf' rs' where
    step: "decode_step lib ctx ids unf g = Inr (r, ids', unf')" and
    rs: "rs = r # rs'" and
    rest: "rs' = [] \<or> gen_loop fuel lm lib ctx ids' unf' w1 = Some (rs', out, w')"
    by blast
  note fin = decode_step_finished [OF step Suc.prems(2) Suc.prems(3) Suc.prems(4)]
  note shape = decode_step_shape [OF step Suc.prems(2)]
  show ?case
  proof (cases k)
    case 0
    with rs fin show ?thesis by auto
  next
    case (Suc k')
    with rest rs Suc.prems(5) have
      run: "gen_loop fuel lm lib ctx ids' unf' w1 = Some (rs', out, w')"
      by auto
    have "status (rs' ! k') ! i = 0 \<and> (ctx_pad_token_id ctx = Some p \<longrightarrow> tokens (rs' ! k') ! i = p)"
      using Suc.IH [OF run, of k'] shape(2,3) Suc.prems(3,5) fin(1) rs Suc by simp
    with rs Suc show ?thesis by simp
  qed
qed

lemma gen_loop_shape:
  assumes "gen_loop fuel lm lib ctx ids unf w = Some (rs, out, w')"
    and "length unf = length ids" and "k < length rs"
  shows "length (tokens (rs ! k)) = length ids \<and> length (status (rs ! k)) = length ids"
  using assms
proof (induction fuel arbitrary: ids unf w rs k)
  case 0
  then show ?case by simp
next
  case (Suc fuel)
  have "rs \<noteq> []" using Suc.prems(3) by auto
  from gen_loop_nonempty [OF Suc.prems(1) this] obtain g w1 r ids' unf' rs' where
    step: "decode_step lib ctx ids unf g = Inr (r, ids', unf')" and
    rs: "rs = r # rs'" and
    rest: "rs' = [] \<or> gen_loop fuel lm lib ctx ids' unf' w1 = Some (rs', out, w')"
    by blast
  note shape = decode_step_shape [OF step Suc.prems(2)]
  show ?case
  proof (cases k)
    case 0
    with rs shape show ?thesis by auto
  next
    case (Suc k')
    with rest rs Suc.prems(3) have
      run: "gen_loop fuel lm lib ctx ids' unf' w1 = Some (rs', out, w')"
      by auto
    have "length (tokens (rs' ! k')) = length ids' \<and> length (status (rs' ! k')) = length ids'"
      using Suc.IH [OF run, of k'] shape(2,3) Suc.prems(3) rs Suc by simp
    with rs Suc shape(2) show ?thesis by simp
  qed
qed

text \<open>A replica reported with status 0 emits the pad id on every later step.\<close>

lemma gen_loop_stopped_pads:
  assumes "gen_loop fuel lm lib ctx ids unf w = Some (rs, out, w')"
    and "length unf = length ids" and "i < length ids" and "j < k" and "k < length rs"
    and "status (rs ! j) ! i = 0" and "ctx_pad_token_id ctx = Some p"
  shows "tokens (rs ! k) ! i = p"
  using assms
proof (induction fuel arbitrary: ids unf w rs j k)
  case 0
  then show ?case by simp
next
  case (Suc fuel)
  from Suc.prems(4,5) obtain k' where k: "k = Suc k'" by (cases k) auto
  have "rs \<noteq> []" using Suc.prems(5) by auto
  from gen_loop_nonempty [OF Suc.prems(1) this] obtain g w1 r ids' unf' rs' where
    step: "decode_step lib ctx ids unf g = Inr (r, ids', unf')" and
    rs: "rs = r # rs'" and
    rest: "rs' = [] \<or> gen_loop fuel lm lib ctx ids' unf' w1 = Some (rs', out, w')"
    by blast
  from rest rs Suc.prems(5) k have
    run: "gen_loop fuel lm lib ctx ids' unf' w1 = Some (rs', out, w')" by auto
  note shape = decode_step_shape [OF step Suc.prems(2)]
  have len': "length unf' = length ids'" "i < length ids'" "k' < length rs'"
    using shape(2,3) Suc.prems(3,5) rs k by simp_all
  show ?case
  proof (cases j)
    case 0
    with Suc.prems(6) rs have "status r ! i = 0" by simp
    then have "unf' ! i = 0"
      using decode_step_status_zero [OF step Suc.prems(2) Suc.prems(3)] by simp
    from gen_loop_finished [OF run len'(1) len'(2) this len'(3), of p] Suc.prems(7) rs k
    show ?thesis by simp
  next
    case (Suc j')
    have "tokens (rs' ! k') ! i = p"
      using Suc.IH [OF run len'(1) len'(2), of j' k'] Suc.prems(4,6,7) len'(3) rs k Suc by simp
    with rs k show ?thesis by simp
  qed
qed

lemma ncols_replicate [simp]: "0 < n \<Longrightarrow> ncols (replicate n row) = length row"
  by (cases n) (simp_all add: ncols_def)

lemma seed_empty_Inr:
  "seed_empty ids eos = Inr (ids1, l1) \<Longrightarrow>
   length ids1 = length ids \<and> (ids \<noteq> [] \<longrightarrow> int (ncols ids1) = l1)"
  by (auto simp: seed_empty_def bind_r_def split: if_splits option.splits sum.splits)

lemma prepare_encoder_decoder_Inr:
  "prepare_encoder_decoder lm config ids1 l1 n w = (Inr (ids2, l2, enc), w1) \<Longrightarrow>
   length ids1 = n \<Longrightarrow> (0 < n \<longrightarrow> int (ncols ids1) = l1) \<Longrightarrow>
   length ids2 = n \<and> (0 < n \<longrightarrow> int (ncols ids2) = l2)"
  by (auto simp: prepare_encoder_decoder_def split: if_splits option.splits sum.splits prod.splits)

lemma generate_init_Inr:
  assumes "generate_init lm input_ids logprobs kwargs w = (Inr (ctx, ids2, unf), w1)"
  shows "length ids2 = length input_ids"
    and "unf = replicate (length input_ids) 1"
    and "ctx_config ctx = config_update (lm_generation_config lm) kwargs"
    and "ctx_eos_token_id ctx = normalize_eos (eos_token_id (ctx_config ctx))"
    and "collect_pad (pad_token_id (ctx_config ctx)) (ctx_eos_token_id ctx)
           = Inr (ctx_pad_token_id ctx)"
    and "ctx_logprobs ctx = logprobs"
    and "input_ids \<noteq> [] \<Longrightarrow> int (ncols ids2) = ctx_input_length ctx"
proof -
  let ?config = "config_update (lm_generation_config lm) kwargs"
  let ?eos = "normalize_eos (eos_token_id ?config)"
  from assms obtain pad ids1 l1 l2 enc where
    pad: "collect_pad (pad_token_id ?config) ?eos = Inr pad" and
    seed: "seed_empty input_ids ?eos = Inr (ids1, l1)" and
    prep: "prepare_encoder_decoder lm ?config ids1 l1 (length input_ids) w
             = (Inr (ids2, l2, enc), w1)" and
    ctx: "ctx = \<lparr>ctx_config = ?config, ctx_logprobs = logprobs, ctx_pad_token_id = pad,
                 ctx_eos_token_id = ?eos, ctx_input_length = l2,
                 ctx_processor = logits_processor ?config l2, ctx_encoder_outputs = enc\<rparr>" and
    unf: "unf = replicate (length input_ids) 1"
    unfolding generate_init_def Let_def bind_r_def
    by (auto split: sum.splits prod.splits)
  from seed_empty_Inr [OF seed] have s: "length ids1 = length input_ids"
    "input_ids \<noteq> [] \<longrightarrow> int (ncols ids1) = l1" by simp_all
  from prepare_encoder_decoder_Inr [OF prep s(1)] s(2)
  have p: "length ids2 = length input_ids" "input_ids \<noteq> [] \<longrightarrow> int (ncols ids2) = l2"
    by simp_all
  show "length ids2 = length input_ids" by (rule p(1))
  show "unf = replicate (length input_ids) 1" by (rule unf)
  show "ctx_config ctx = ?config" using ctx by simp
  show "ctx_eos_token_id ctx = normalize_eos (eos_token_id (ctx_config ctx))" using ctx by simp
  show "collect_pad (pad_token_id (ctx_config ctx)) (ctx_eos_token_id ctx)
           = Inr (ctx_pad_token_id ctx)" using ctx pad by simp
  show "ctx_logprobs ctx = logprobs" using ctx by simp
  show "input_ids \<noteq> [] \<Longrightarrow> int (ncols ids2) = ctx_input_length ctx" using ctx p(2) by simp
qed

lemma generate_Some:
  assumes "generate fuel lm lib input_ids logprobs kwargs w = Some (rs, out, w')"
  shows "rs = [] \<or> (\<exists>ctx ids2 unf w1.
            generate_init lm input_ids logprobs kwargs w = (Inr (ctx, ids2, unf), w1)
          \<and> gen_loop fuel lm lib ctx ids2 unf w1 = Some (rs, out, w'))"
  using assms unfolding generate_def
  by (auto split: prod.splits sum.splits)

lemma decode_step_single_eos_token:
  assumes step: "decode_step lib ctx ids unf g = Inr (r, ids', unf')"
    and len: "length unf = length ids" and i: "i < length ids"
    and eos: "ctx_eos_token_id ctx = Some [e]" and tok: "tokens r ! i = e"
  shows "status r ! i = 0"
  using decode_step_replica [OF step len i] eos tok by auto

lemma gen_loop_single_eos_token:
  assumes "gen_loop fuel lm lib ctx ids unf w = Some (rs, out, w')"
    and "length unf = length ids" and "i < length ids" and "j < length rs"
    and "ctx_eos_token_id ctx = Some [e]" and "tokens (rs ! j) ! i = e"
  shows "status (rs ! j) ! i = 0"
  using assms
proof (induction fuel arbitrary: ids unf w rs j)
  case 0
  then show ?case by simp
next
  case (Suc fuel)
  have "rs \<noteq> []" using Suc.prems(4) by auto
  from gen_loop_nonempty [OF Suc.prems(1) this] obtain g w1 r ids' unf' rs' where
    step: "decode_step lib ctx ids unf g = Inr (r, ids', unf')" and
    rs: "rs = r # rs'" and
    rest: "rs' = [] \<or> gen_loop fuel lm lib ctx ids' unf' w1 = Some (rs', out, w')"
    by blast
  note shape = decode_step_shape [OF step Suc.prems(2)]
  show ?case
  proof (cases j)
    case 0
    with Suc.prems(6) rs have "tokens r ! i = e" by simp
    from decode_step_single_eos_token [OF step Suc.prems(2) Suc.prems(3) Suc.prems(5) this]
    show ?thesis using rs 0 by simp
  next
    case (Suc j')
    with rest rs Suc.prems(4) have
      run: "gen_loop fuel lm lib ctx ids' unf' w1 = Some (rs', out, w')" by auto
    have "status (rs' ! j') ! i = 0"
      using Suc.IH [OF run, of j'] shape(2,3) Suc.prems(3,4,5,6) rs Suc by simp
    with rs Suc show ?thesis by simp
  qed
qed

lemma decode_step_single_eos:
  assumes step: "decode_step lib ctx ids unf g = Inr (r, ids', unf')"
    and len: "length unf = length ids" and i: "i < length ids"
    and bit: "unf ! i = 0 \<or> unf ! i = 1"
    and eos: "ctx_eos_token_id ctx = None \<or> ctx_eos_token_id ctx = Some [e]"
  shows "unf' ! i =
           (if unf ! i = 0 \<or> (ctx_eos_token_id ctx = Some [e] \<and> tokens r ! i = e) then 0 else 1)"
    and "\<exists>m. max_new_tokens (ctx_config ctx) = Some m
           \<and> status r ! i =
               (if unf' ! i = 0 then 0
                else if m \<le> int (ncols ids) + 1 - ctx_input_length ctx then - 1 else 1)"
proof -
  from decode_step_replica [OF step len i] obtain t m where
    m: "max_new_tokens (ctx_config ctx) = Some m" and
    u: "unf' ! i =
           (case ctx_eos_token_id ctx of None \<Rightarrow> unf ! i
            | Some es \<Rightarrow> unf ! i * int (length (filter (\<lambda>e. tokens r ! i \<noteq> e) es)))" and
    st: "status r ! i =
           (if m \<le> int (ncols ids) + 1 - ctx_input_length ctx then - (unf' ! i) else unf' ! i)"
    by blast
  show a: "unf' ! i =
           (if unf ! i = 0 \<or> (ctx_eos_token_id ctx = Some [e] \<and> tokens r ! i = e) then 0 else 1)"
    using u bit eos by auto
  then have "unf' ! i = 0 \<or> unf' ! i = 1" by (simp split: if_splits)
  then have "status r ! i =
               (if unf' ! i = 0 then 0
                else if m \<le> int (ncols ids) + 1 - ctx_input_length ctx then - 1 else 1)"
    using st by auto
  with m show "\<exists>m. max_new_tokens (ctx_config ctx) = Some m
           \<and> status r ! i =
               (if unf' ! i = 0 then 0
                else if m \<le> int (ncols ids) + 1 - ctx_input_length ctx then - 1 else 1)"
    by blast
qed

lemma gen_loop_status:
  assumes "gen_loop fuel lm lib ctx ids unf w = Some (rs, out, w')"
    and "length unf = length ids"
    and "\<forall>i<length ids. unf ! i = 0 \<or> unf ! i = 1"
    and "ctx_eos_token_id ctx = None \<or> ctx_eos_token_id ctx = Some [e]"
    and "k < length rs" and "i < length ids"
  shows "\<exists>m. max_new_tokens (ctx_config ctx) = Some m
      \<and> status (rs ! k) ! i =
          (if unf ! i = 0 \<or> (ctx_eos_token_id ctx = Some [e] \<and> (\<exists>j\<le>k. tokens (rs ! j) ! i = e))
           then 0
           else if m \<le> int (ncols ids) + int k + 1 - ctx_input_length ctx then - 1 else 1)"
  using assms
proof (induction fuel arbitrary: ids unf w rs k)
  case 0
  then show ?case by simp
next
  case (Suc fuel)
  have "rs \<noteq> []" using Suc.prems(5) by auto
  from gen_loop_nonempty [OF Suc.prems(1) this] obtain g w1 r ids' unf' rs' where
    step: "decode_step lib ctx ids unf g = Inr (r, ids', unf')" and
    rs: "rs = r # rs'" and
    rest: "rs' = [] \<or> gen_loop fuel lm lib ctx ids' unf' w1 = Some (rs', out, w')"
    by blast
  note shape = decode_step_shape [OF step Suc.prems(2)]
  have bit: "unf ! i = 0 \<or> unf ! i = 1" using Suc.prems(3,6) by blast
  note one = decode_step_single_eos [OF step Suc.prems(2) Suc.prems(6) bit Suc.prems(4)]
  from one(2) obtain m where
    m: "max_new_tokens (ctx_config ctx) = Some m" and
    st: "status r ! i =
               (if unf' ! i = 0 then 0
                else if m \<le> int (ncols ids) + 1 - ctx_input_length ctx then - 1 else 1)"
    by blast
  have ne: "ids \<noteq> []" using Suc.prems(6) by auto
  show ?case
  proof (cases k)
    case 0
    have "status r ! i =
          (if unf ! i = 0 \<or> (ctx_eos_token_id ctx = Some [e] \<and> tokens r ! i = e)
           then 0
           else if m \<le> int (ncols ids) + 1 - ctx_input_length ctx then - 1 else 1)"
      using st one(1) by simp
    with m rs 0 show ?thesis by simp
  next
    case (Suc k')
    with rest rs Suc.prems(5) have
      run: "gen_loop fuel lm lib ctx ids' unf' w1 = Some (rs', out, w')" by auto
    have bits': "\<forall>i<length ids'. unf' ! i = 0 \<or> unf' ! i = 1"
    proof (intro allI impI)
      fix a assume "a < length ids'"
      then have a: "a < length ids" using shape(2) by simp
      then have "unf ! a = 0 \<or> unf ! a = 1" using Suc.prems(3) by blast
      from decode_step_single_eos(1) [OF step Suc.prems(2) a this Suc.prems(4)]
      show "unf' ! a = 0 \<or> unf' ! a = 1" by (simp split: if_splits)
    qed
    have len': "length unf' = length ids'" "k' < length rs'" "i < length ids'"
      using shape(2,3) Suc.prems(5,6) rs Suc by simp_all
    from Suc.IH [OF run len'(1) bits' Suc.prems(4) len'(2) len'(3)] m
    have ih: "status (rs' ! k') ! i =
          (if unf' ! i = 0 \<or> (ctx_eos_token_id ctx = Some [e] \<and> (\<exists>j\<le>k'. tokens (rs' ! j) ! i = e))
           then 0
           else if m \<le> int (ncols ids') + int k' + 1 - ctx_input_length ctx then - 1 else 1)"
      by simp
    have zero: "unf' ! i = 0 \<longleftrightarrow>
              unf ! i = 0 \<or> (ctx_eos_token_id ctx = Some [e] \<and> tokens r ! i = e)"
      using one(1) by (simp split: if_splits)
    have ex: "(\<exists>j\<le>k. tokens (rs ! j) ! i = e) \<longleftrightarrow>
              tokens r ! i = e \<or> (\<exists>j\<le>k'. tokens (rs' ! j) ! i = e)"
      unfolding rs Suc by (rule ex_le_Suc_Cons [where P = "\<lambda>x. tokens x ! i = e"])
    have cond: "unf' ! i = 0 \<or> (ctx_eos_token_id ctx = Some [e] \<and> (\<exists>j\<le>k'. tokens (rs' ! j) ! i = e))
       \<longleftrightarrow> unf ! i = 0 \<or> (ctx_eos_token_id ctx = Some [e] \<and> (\<exists>j\<le>k. tokens (rs ! j) ! i = e))"
      unfolding zero ex by blast
    have cap: "m \<le> int (ncols ids') + int k' + 1 - ctx_input_length ctx \<longleftrightarrow>
               m \<le> int (ncols ids) + int k + 1 - ctx_input_length ctx"
      using shape(5) ne Suc by simp
    have same: "status (rs ! k) ! i = status (rs' ! k') ! i" by (simp add: rs Suc)
    have "status (rs ! k) ! i =
          (if unf ! i = 0 \<or> (ctx_eos_token_id ctx = Some [e] \<and> (\<exists>j\<le>k. tokens (rs ! j) ! i = e))
           then 0
           else if m \<le> int (ncols ids) + int k + 1 - ctx_input_length ctx then - 1 else 1)"
      unfolding same ih cond cap ..
    with m show ?thesis by blast
  qed
qed

text \<open>The flags never go below 0, so the loop ends once the length cap is reached.\<close>

lemma decode_step_nonneg:
  assumes step: "decode_step lib ctx ids unf g = Inr (r, ids', unf')"
    and len: "length unf = length ids" and i: "i < length ids" and nn: "0 \<le> unf ! i"
  shows "0 \<le> unf' ! i"
  using decode_step_replica [OF step len i] nn by (auto split: option.splits)

lemma decode_step_capped:
  assumes step: "decode_step lib ctx ids unf g = Inr (r, ids', unf')"
    and len: "length unf = length ids" and nn: "\<forall>i<length ids. 0 \<le> unf ! i"
    and m: "max_new_tokens (ctx_config ctx) = Some m"
    and cap: "m \<le> int (ncols ids) + 1 - ctx_input_length ctx"
  shows "\<forall>x\<in>set (status r). x \<le> 0"
proof
  fix x assume "x \<in> set (status r)"
  then obtain i where i: "i < length (status r)" and x: "x = status r ! i"
    by (auto simp: in_set_conv_nth)
  have i': "i < length ids" using i decode_step_shape(4) [OF step len] by simp
  have "0 \<le> unf' ! i" using decode_step_nonneg [OF step len i'] nn i' by blast
  moreover have "status r ! i = - (unf' ! i)"
    using decode_step_replica [OF step len i'] m cap by auto
  ultimately show "x \<le> 0" using x by simp
qed

lemma gen_loop_terminates:
  assumes "length unf = length ids" and "\<forall>i<length ids. 0 \<le> unf ! i"
    and "\<forall>m. max_new_tokens (ctx_config ctx) = Some m
           \<longrightarrow> nat (m - (int (ncols ids) + 1 - ctx_input_length ctx)) < fuel"
    and "0 < fuel"
  shows "\<exists>rs out w'. gen_loop fuel lm lib ctx ids unf w = Some (rs, out, w')"
  using assms
proof (induction fuel arbitrary: ids unf w)
  case 0
  then show ?case by simp
next
  case (Suc fuel)
  obtain a w1 where inf: "infer (lm_forward lm (ctx_encoder_outputs ctx)) w = (a, w1)"
    by (cases "infer (lm_forward lm (ctx_encoder_outputs ctx)) w")
  show ?case
  proof (cases a)
    case (Inl e)
    with inf show ?thesis by simp
  next
    case (Inr g)
    show ?thesis
    proof (cases "decode_step lib ctx ids unf g")
      case (Inl e)
      with inf Inr show ?thesis by simp
    next
      case step0: (Inr res)
      obtain r ids' unf' where res: "res = (r, ids', unf')" by (cases res)
      with step0 have step: "decode_step lib ctx ids unf g = Inr (r, ids', unf')" by simp
      note shape = decode_step_shape [OF step Suc.prems(1)]
      show ?thesis
      proof (cases "tensor_max (status r)")
        case (Inl e)
        with inf Inr step show ?thesis by simp
      next
        case mx: (Inr mx)
        show ?thesis
        proof (cases "mx \<le> 0")
          case True
          with inf Inr step mx show ?thesis by simp
        next
          case False
          with tensor_max_Inr [OF mx] have pos: "\<not> (\<forall>x\<in>set (status r). x \<le> 0)" and
            ne: "status r \<noteq> []" by simp_all
          have idsne: "ids \<noteq> []" using ne shape(4) by auto
          then obtain i0 where i0: "i0 < length ids" by (cases ids) auto
          from decode_step_replica [OF step Suc.prems(1) i0] obtain m where
            m: "max_new_tokens (ctx_config ctx) = Some m" by blast
          have nocap: "\<not> m \<le> int (ncols ids) + 1 - ctx_input_length ctx"
            using decode_step_capped [OF step Suc.prems(1) Suc.prems(2) m] pos by blast
          have bound: "nat (m - (int (ncols ids) + 1 - ctx_input_length ctx)) < Suc fuel"
            using Suc.prems(3) m by blast
          have len': "length unf' = length ids'" using shape(2,3) by simp
          have nn': "\<forall>i<length ids'. 0 \<le> unf' ! i"
            using decode_step_nonneg [OF step Suc.prems(1)] Suc.prems(2) shape(2) by simp
          have fuel': "\<forall>m. max_new_tokens (ctx_config ctx) = Some m
              \<longrightarrow> nat (m - (int (ncols ids') + 1 - ctx_input_length ctx)) < fuel"
            using m nocap bound shape(5) idsne by auto
          have "0 < fuel" using nocap bound by linarith
          from Suc.IH [OF len' nn' fuel' this, of w1] obtain rs out w' where
            "gen_loop fuel lm lib ctx ids' unf' w1 = Some (rs, out, w')" by blast
          with inf Inr step mx False show ?thesis by simp
        qed
      qed
    qed
  qed
qed

text \<open>A run that is exhausted has yielded a last tuple in which no replica is unfinished.\<close>

lemma gen_loop_exhausted:
  assumes "gen_loop fuel lm lib ctx ids unf w = Some (rs, StopIteration, w')"
  shows "rs \<noteq> [] \<and> (\<forall>x\<in>set (status (last rs)). x \<le> 0)"
  using assms
proof (induction fuel arbitrary: ids unf w rs)
  case 0
  then show ?case by simp
next
  case (Suc fuel)
  from gen_loop_cases [OF Suc.prems] show ?case
  proof (elim disjE exE conjE)
    fix e assume "StopIteration = Raised e"
    then show ?thesis by simp
  next
    fix g w1 r ids' unf'
    assume "rs = [r]" "status r = []" "StopIteration = Raised RuntimeError"
    then show ?thesis by simp
  next
    fix g w1 r ids' unf'
    assume "rs = [r]" "\<forall>x\<in>set (status r). x \<le> 0"
    then show ?thesis by simp
  next
    fix g w1 r ids' unf' rs'
    assume rs: "rs = r # rs'" and
      run: "gen_loop fuel lm lib ctx ids' unf' w1 = Some (rs', StopIteration, w')"
    from Suc.IH [OF run] rs show ?thesis by simp
  qed
qed

lemma gen_loop_length:
  assumes "gen_loop fuel lm lib ctx ids unf w = Some (rs, out, w')"
    and "length unf = length ids" and "\<forall>i<length ids. 0 \<le> unf ! i"
    and "max_new_tokens (ctx_config ctx) = Some m"
  shows "length rs \<le> Suc (nat (m - (int (ncols ids) + 1 - ctx_input_length ctx)))"
  using assms
proof (induction fuel arbitrary: ids unf w rs)
  case 0
  then show ?case by simp
next
  case (Suc fuel)
  show ?case
  proof (cases "length rs \<le> 1")
    case True
    then show ?thesis by simp
  next
    case False
    then have "rs \<noteq> []" by auto
    from gen_loop_nonempty [OF Suc.prems(1) this] False obtain g w1 r ids' unf' rs' where
      step: "decode_step lib ctx ids unf g = Inr (r, ids', unf')" and
      rs: "rs = r # rs'" and
      run: "gen_loop fuel lm lib ctx ids' unf' w1 = Some (rs', out, w')"
      by auto
    note shape = decode_step_shape [OF step Suc.prems(2)]
    have pos: "\<not> (\<forall>x\<in>set (status r). x \<le> 0)"
      using gen_loop_cases [OF Suc.prems(1)] rs False by auto
    then have "status r \<noteq> []" by auto
    then have idsne: "ids \<noteq> []" using shape(4) by auto
    have nocap: "\<not> m \<le> int (ncols ids) + 1 - ctx_input_length ctx"
      using decode_step_capped [OF step Suc.prems(2) Suc.prems(3) Suc.prems(4)] pos by blast
    have len': "length unf' = length ids'" using shape(2,3) by simp
    have nn': "\<forall>i<length ids'. 0 \<le> unf' ! i"
      using decode_step_nonneg [OF step Suc.prems(2)] Suc.prems(3) shape(2) by simp
    from Suc.IH [OF run len' nn' Suc.prems(4)]
    have "length rs' \<le> Suc (nat (m - (int (ncols ids') + 1 - ctx_input_length ctx)))" .
    with rs nocap shape(5) idsne show ?thesis by auto
  qed
qed

text \<open>The status codes of a run of \<open>generate\<close> with at most one end-of-sequence id.\<close>

lemma generate_status:
  assumes eos: "normalize_eos (eos_token_id (config_update (lm_generation_config lm) kwargs)) = None
              \<or> normalize_eos (eos_token_id (config_update (lm_generation_config lm) kwargs)) = Some [e]"
    and run: "generate fuel lm lib input_ids logprobs kwargs w = Some (rs, out, w')"
    and k: "k < length rs" and i: "i < length input_ids"
  shows "\<exists>m. max_new_tokens (config_update (lm_generation_config lm) kwargs) = Some m
      \<and> status (rs ! k) ! i =
          (if normalize_eos (eos_token_id (config_update (lm_generation_config lm) kwargs)) = Some [e]
              \<and> (\<exists>j\<le>k. tokens (rs ! j) ! i = e)
           then 0
           else if m \<le> int k + 1 then - 1 else 1)"
proof -
  have "rs \<noteq> []" using k by auto
  with generate_Some [OF run] obtain ctx ids2 unf w1 where
    gi: "generate_init lm input_ids logprobs kwargs w = (Inr (ctx, ids2, unf), w1)" and
    loop: "gen_loop fuel lm lib ctx ids2 unf w1 = Some (rs, out, w')"
    by blast
  note g = generate_init_Inr [OF gi]
  have ne: "input_ids \<noteq> []" using i by auto
  have len: "length unf = length ids2" using g(1,2) by simp
  have bits: "\<forall>i<length ids2. unf ! i = 0 \<or> unf ! i = 1" using g(1,2) by simp
  have eos': "ctx_eos_token_id ctx = None \<or> ctx_eos_token_id ctx = Some [e]"
    using eos g(3,4) by simp
  have i': "i < length ids2" using i g(1) by simp
  from gen_loop_status [OF loop len bits eos' k i'] obtain m where
    m: "max_new_tokens (ctx_config ctx) = Some m" and
    st: "status (rs ! k) ! i =
          (if unf ! i = 0 \<or> (ctx_eos_token_id ctx = Some [e] \<and> (\<exists>j\<le>k. tokens (rs ! j) ! i = e))
           then 0
           else if m \<le> int (ncols ids2) + int k + 1 - ctx_input_length ctx then - 1 else 1)"
    by blast
  have u: "unf ! i = 1" using g(2) i by simp
  have c: "int (ncols ids2) + int k + 1 - ctx_input_length ctx = int k + 1"
    using g(7) ne by simp
  have "status (rs ! k) ! i =
          (if normalize_eos (eos_token_id (config_update (lm_generation_config lm) kwargs)) = Some [e]
              \<and> (\<exists>j\<le>k. tokens (rs ! j) ! i = e)
           then 0
           else if m \<le> int k + 1 then - 1 else 1)"
    using st u c g(3,4) by simp
  with m g(3) show ?thesis by simp
qed

section \<open>Two concrete runs\<close>

text \<open>
  Two replicas of the prompt \<open>[7, 8]\<close>, end-of-sequence id 1, no pad id. Replica 0 draws
  the end-of-sequence id on the first step. With \<open>max_new_tokens = 2\<close> the run has two
  steps, with \<open>max_new_tokens = 1\<close> it has one.
\<close>

lemma infer_steady:
  "infer (lm_forward steady_model None) w =
     (Inr (\<lambda>row. [0, 0]), w\<lparr>invocations := invocations w @ [True]\<rparr>)"
  using infer_succeeds [of 0 "lm_forward steady_model None" w "\<lambda>row. [0, 0]"]
  by (simp add: steady_model_def)

lemma demo_init:
  "generate_init steady_model [[7, 8], [7, 8]] 0 (demo_kwargs\<lparr>kw_max_new_tokens := Some m\<rparr>) w =
     (Inr (\<lparr>ctx_config = demo_config\<lparr>min_new_tokens := Some 0, max_new_tokens := Some m,
                temperature := Some 1, top_p := Some 1\<rparr>,
             ctx_logprobs = 0, ctx_pad_token_id = Some 1, ctx_eos_token_id = Some [1],
             ctx_input_length = 2, ctx_processor = [], ctx_encoder_outputs = None\<rparr>,
           [[7, 8], [7, 8]], [1, 1]), w)"
  by (simp add: generate_init_def config_update_def steady_model_def demo_kwargs_def
      demo_config_def normalize_eos_def collect_pad_def first_id_def bind_r_def seed_empty_def
      ncols_def prepare_encoder_decoder_def logits_processor_def min_new_tokens_part_def
      temperature_part_def top_p_part_def numeral_eq_Suc)

lemmas demo_step_defs =
  decode_step_def next_token_probs_def run_processor_def softmax_def select_tokens_def
  demo_run_ctx_def demo_config_def scripted_library_def gather_def topk_def pad_finished_def
  mark_eos_def step_status_def ncols_def demo_tuple_def bind_r_def Let_def

lemma demo_first_step:
  "decode_step scripted_library (demo_run_ctx 2) [[7, 8], [7, 8]] [1, 1] (\<lambda>row. [0, 0])
     = Inr (demo_tuple [0, 1], [[7, 8, 1], [7, 8, 0]], [0, 1])"
  by (simp add: demo_step_defs)

lemma demo_second_step:
  "decode_step scripted_library (demo_run_ctx 2) [[7, 8, 1], [7, 8, 0]] [0, 1] (\<lambda>row. [0, 0])
     = Inr (demo_tuple [0, - 1], [[7, 8, 1, 1], [7, 8, 0, 0]], [0, 1])"
  by (simp add: demo_step_defs)

lemma demo_capped_step:
  "decode_step scripted_library (demo_run_ctx 1) [[7, 8], [7, 8]] [1, 1] (\<lambda>row. [0, 0])
     = Inr (demo_tuple [0, - 1], [[7, 8, 1], [7, 8, 0]], [0, 1])"
  by (simp add: demo_step_defs)

lemma demo_tuple_simps [simp]:
  "status (demo_tuple st) = st" "tokens (demo_tuple st) = [1, 0]"
  by (simp_all add: demo_tuple_def)

lemma demo_forward [simp]:
  "lm_forward steady_model (ctx_encoder_outputs (demo_run_ctx m)) = lm_forward steady_model None"
  by (simp add: demo_run_ctx_def)

lemma demo_loop_last:
  "gen_loop (Suc fuel) steady_model scripted_library (demo_run_ctx 2) [[7, 8, 1], [7, 8, 0]] [0, 1] w
     = Some ([demo_tuple [0, - 1]], StopIteration, w\<lparr>invocations := invocations w @ [True]\<rparr>)"
  by (simp add: infer_steady demo_second_step tensor_max_def)

lemma demo_loop:
  "gen_loop (Suc (Suc fuel)) steady_model scripted_library (demo_run_ctx 2) [[7, 8], [7, 8]] [1, 1] w
     = Some ([demo_tuple [0, 1], demo_tuple [0, - 1]], StopIteration,
             w\<lparr>invocations := invocations w @ [True, True]\<rparr>)"
proof -
  have "gen_loop (Suc (Suc fuel)) steady_model scripted_library (demo_run_ctx 2)
          [[7, 8], [7, 8]] [1, 1] w
        = (case gen_loop (Suc fuel) steady_model scripted_library (demo_run_ctx 2)
                  [[7, 8, 1], [7, 8, 0]] [0, 1] (w\<lparr>invocations := invocations w @ [True]\<rparr>) of
             None \<Rightarrow> None
           | Some (rs, out, w'') \<Rightarrow> Some (demo_tuple [0, 1] # rs, out, w''))"
    by (subst gen_loop.simps(2))
       (simp add: infer_steady demo_first_step tensor_max_def del: gen_loop.simps)
  then show ?thesis by (simp only: demo_loop_last) simp
qed

lemma demo_loop_capped:
  "gen_loop (Suc fuel) steady_model scripted_library (demo_run_ctx 1) [[7, 8], [7, 8]] [1, 1] w
     = Some ([demo_tuple [0, - 1]], StopIteration, w\<lparr>invocations := invocations w @ [True]\<rparr>)"
  by (simp add: infer_steady demo_capped_step tensor_max_def)

lemma demo_generate:
  "generate 2 steady_model scripted_library [[7, 8], [7, 8]] 0 demo_kwargs demo_world
     = Some ([demo_tuple [0, 1], demo_tuple [0, - 1]], StopIteration,
             \<lparr>invocations = [True, True], clock = 0, inference_mode = False\<rparr>)"
proof -
  have k: "demo_kwargs = demo_kwargs\<lparr>kw_max_new_tokens := Some 2\<rparr>"
    by (simp add: demo_kwargs_def)
  have "generate (Suc (Suc 0)) steady_model scripted_library [[7, 8], [7, 8]] 0
          (demo_kwargs\<lparr>kw_max_new_tokens := Some 2\<rparr>) demo_world
     = Some ([demo_tuple [0, 1], demo_tuple [0, - 1]], StopIteration,
             demo_world\<lparr>invocations := invocations demo_world @ [True, True]\<rparr>)"
    unfolding generate_def demo_init demo_run_ctx_def [symmetric]
    by (simp only: demo_loop prod.case sum.case)
  then show ?thesis using k by (simp add: demo_world_def numeral_2_eq_2)
qed

lemma demo_generate_capped:
  "generate 1 steady_model scripted_library [[7, 8], [7, 8]] 0
       (demo_kwargs\<lparr>kw_max_new_tokens := Some 1\<rparr>) demo_world
     = Some ([demo_tuple [0, - 1]], StopIteration,
             \<lparr>invocations = [True], clock = 0, inference_mode = False\<rparr>)"
proof -
  have "generate (Suc 0) steady_model scripted_library [[7, 8], [7, 8]] 0
          (demo_kwargs\<lparr>kw_max_new_tokens := Some 1\<rparr>) demo_world
     = Some ([demo_tuple [0, - 1]], StopIteration,
             demo_world\<lparr>invocations := invocations demo_world @ [True]\<rparr>)"
    unfolding generate_def demo_init demo_run_ctx_def [symmetric]
    by (simp only: demo_loop_capped prod.case sum.case)
  then show ?thesis by (simp add: demo_world_def)
qed

lemma demo_eos:
  "normalize_eos (eos_token_id (config_update (lm_generation_config steady_model)
      (demo_kwargs\<lparr>kw_max_new_tokens := Some m\<rparr>))) = Some [1]"
  "pad_token_id (config_update (lm_generation_config steady_model)
      (demo_kwargs\<lparr>kw_max_new_tokens := Some m\<rparr>)) = None"
  "max_new_tokens (config_update (lm_generation_config steady_model)
      (demo_kwargs\<lparr>kw_max_new_tokens := Some m\<rparr>)) = Some m"
  by (simp_all add: config_update_def steady_model_def demo_kwargs_def demo_config_def
      normalize_eos_def)

lemma demo_kwargs_max: "demo_kwargs\<lparr>kw_max_new_tokens := Some 2\<rparr> = demo_kwargs"
  by (simp add: demo_kwargs_def)

lemma demo_call_kwargs:
  "\<lparr>kw_min_new_tokens = Some 0, kw_max_new_tokens = Some 2, kw_temperature = Some 1,
    kw_top_p = Some 1\<rparr> = demo_kwargs"
  by (simp add: demo_kwargs_def)

lemma upt_2: "[0..<2] = [0, 1]"
  by (simp add: numeral_2_eq_2 upt_rec)

lemma demo_call:
  "call_body 2 steady_model scripted_library demo_tokenizer (TensorPrompt 1 [7, 8]) 0 2 1 1 2 0
       False demo_world
     = Some ([\<lparr>c_text = ''a'', c_index = 0, c_text_offset = 0, c_finish_reason = Some Stop,
                c_samples = None\<rparr>,
              \<lparr>c_text = ''a'', c_index = 1, c_text_offset = 0, c_finish_reason = None,
                c_samples = None\<rparr>,
              \<lparr>c_text = ''a'', c_index = 1, c_text_offset = 0, c_finish_reason = Some Length,
                c_samples = None\<rparr>],
             StopIteration,
             \<lparr>invocations = [True, True], clock = 0, inference_mode = False\<rparr>,
             [Some Stop, Some Length])"
proof -
  have n: "nat (max 2 1) = 2" by simp
  have r: "replicate 2 [7, 8 :: int] = [[7, 8], [7, 8]]" by (simp add: numeral_2_eq_2)
  have echo: "for_each [7, 8] (echo_token demo_tokenizer False 0 2) (replicate 2 ())
      = ([], [(), ()])"
    by (simp add: echo_token_def echo_replica_def upt_2 demo_tokenizer_def numeral_2_eq_2)
  have emit: "for_each [demo_tuple [0, 1], demo_tuple [0, - 1]] (emit_step demo_tokenizer 0 2)
        (replicate 2 None, [(), ()])
      = ([\<lparr>c_text = ''a'', c_index = 0, c_text_offset = 0, c_finish_reason = Some Stop,
                c_samples = None\<rparr>,
              \<lparr>c_text = ''a'', c_index = 1, c_text_offset = 0, c_finish_reason = None,
                c_samples = None\<rparr>,
              \<lparr>c_text = ''a'', c_index = 1, c_text_offset = 0, c_finish_reason = Some Length,
                c_samples = None\<rparr>],
         [Some Stop, Some Length], [(), ()])"
    by (simp add: emit_step_def emit_replica_def upt_2 demo_tokenizer_def numeral_2_eq_2)
  show ?thesis
    unfolding call_body_def
    by (simp add: prompt_ids_def n r echo emit demo_call_kwargs demo_generate
        del: for_each.simps)
qed

text \<open>The run of the model with the end-of-sequence ids \<open>[3]\<close> on an empty prompt.\<close>

lemma infer_eos3:
  "infer (lm_forward eos3_model None) w =
     (Inr (\<lambda>row. [0, 0]), w\<lparr>invocations := invocations w @ [True]\<rparr>)"
  using infer_succeeds [of 0 "lm_forward eos3_model None" w "\<lambda>row. [0, 0]"]
  by (simp add: eos3_model_def)

lemma eos3_init:
  "generate_init eos3_model [[]] 0
      \<lparr>kw_min_new_tokens = Some 0, kw_max_new_tokens = Some 1, kw_temperature = Some 1,
       kw_top_p = Some 1\<rparr> w
     = (Inr (eos3_ctx, [[3]], [1]), w)"
  by (simp add: generate_init_def config_update_def eos3_model_def eos3_ctx_def
      demo_config_def normalize_eos_def collect_pad_def first_id_def bind_r_def seed_empty_def
      ncols_def prepare_encoder_decoder_def logits_processor_def min_new_tokens_part_def
      temperature_part_def top_p_part_def)

lemma eos3_step:
  "decode_step demo_library eos3_ctx [[3]] [1] (\<lambda>row. [0, 0])
     = Inr (eos3_tuple, [[3, 0]], [1])"
  by (simp add: decode_step_def next_token_probs_def run_processor_def softmax_def
      select_tokens_def eos3_ctx_def demo_config_def demo_library_def gather_def topk_def
      pad_finished_def mark_eos_def step_status_def ncols_def bind_r_def Let_def
      eos3_tuple_def)

lemma eos3_tuple_simps [simp]:
  "status eos3_tuple = [- 1]" "tokens eos3_tuple = [0]"
  by (simp_all add: eos3_tuple_def)

lemma eos3_generate:
  "generate 1 eos3_model demo_library [[]] 0
      \<lparr>kw_min_new_tokens = Some 0, kw_max_new_tokens = Some 1, kw_temperature = Some 1,
       kw_top_p = Some 1\<rparr> demo_world
     = Some ([eos3_tuple], StopIteration,
             \<lparr>invocations = [True], clock = 0, inference_mode = False\<rparr>)"
proof -
  have f: "lm_forward eos3_model (ctx_encoder_outputs eos3_ctx) = lm_forward eos3_model None"
    by (simp add: eos3_ctx_def)
  have "gen_loop (Suc 0) eos3_model demo_library eos3_ctx [[3]] [1] demo_world
     = Some ([eos3_tuple], StopIteration,
             demo_world\<lparr>invocations := invocations demo_world @ [True]\<rparr>)"
    by (simp add: f infer_eos3 eos3_step tensor_max_def)
  then show ?thesis
    by (simp add: generate_def eos3_init demo_world_def)
qed

lemma eos3_call:
  "call_body 1 eos3_model demo_library demo_tokenizer (TensorPrompt 1 []) 0 1 1 1 1 0 False
       demo_world
     = Some ([\<lparr>c_text = ''a'', c_index = 0, c_text_offset = 0, c_finish_reason = Some Length,
                c_samples = None\<rparr>],
             StopIteration,
             \<lparr>invocations = [True], clock = 0, inference_mode = False\<rparr>,
             [Some Length])"
proof -
  have emit: "for_each [eos3_tuple]
        (emit_step demo_tokenizer 0 (Suc 0)) ([None], [()])
      = ([\<lparr>c_text = ''a'', c_index = 0, c_text_offset = 0, c_finish_reason = Some Length,
                c_samples = None\<rparr>],
         [Some Length], [()])"
    by (simp add: emit_step_def emit_replica_def demo_tokenizer_def)
  show ?thesis
    unfolding call_body_def
    by (simp add: prompt_ids_def emit eos3_generate [unfolded One_nat_def]
        del: for_each.simps(2))
qed

section \<open>The loops of the stream orchestrator\<close>

lemma for_each_append:
  "for_each (xs @ ys) body s =
     (case for_each xs body s of
        (a, s') \<Rightarrow> (case for_each ys body s' of (b, s'') \<Rightarrow> (a @ b, s'')))"
  by (induction xs arbitrary: s) (simp_all split: prod.splits)

lemma emit_replica_frs:
  "fst (snd (emit_replica tk k r i (frs, decs))) =
     frs[i := (case frs ! i of None \<Rightarrow> stop_signal (status r ! i) | Some x \<Rightarrow> Some x)]"
proof (cases "frs ! i")
  case None
  then have "frs[i := None] = frs" by (metis list_update_id)
  with None show ?thesis
    by (simp add: emit_replica_def stop_signal_def Let_def split: prod.splits)
next
  case (Some x)
  then have "frs[i := Some x] = frs" by (metis list_update_id)
  with Some show ?thesis by (simp add: emit_replica_def)
qed

lemma emit_replica_count:
  "length (fst (emit_replica tk k r i (frs, decs))) = (if frs ! i = None then 1 else 0)"
  by (simp add: emit_replica_def Let_def split: prod.splits)

lemma emit_upto:
  assumes "j \<le> length frs"
  shows "length (fst (snd (for_each [0..<j] (emit_replica tk k r) (frs, decs)))) = length frs
       \<and> (\<forall>i<length frs. fst (snd (for_each [0..<j] (emit_replica tk k r) (frs, decs))) ! i =
             (if i < j
              then (case frs ! i of None \<Rightarrow> stop_signal (status r ! i) | Some x \<Rightarrow> Some x)
              else frs ! i))
       \<and> length (fst (for_each [0..<j] (emit_replica tk k r) (frs, decs)))
           = length (filter (\<lambda>i. frs ! i = None) [0..<j])"
  using assms
proof (induction j)
  case 0
  show ?case by simp
next
  case (Suc j)
  obtain cs F D where st: "for_each [0..<j] (emit_replica tk k r) (frs, decs) = (cs, F, D)"
    by (metis prod_cases3)
  from Suc st have len: "length F = length frs" and
    nth: "\<forall>i<length frs. F ! i =
             (if i < j
              then (case frs ! i of None \<Rightarrow> stop_signal (status r ! i) | Some x \<Rightarrow> Some x)
              else frs ! i)" and
    cnt: "length cs = length (filter (\<lambda>i. frs ! i = None) [0..<j])"
    by simp_all
  have j: "j < length frs" using Suc.prems by simp
  then have Fj: "F ! j = frs ! j" using nth by simp
  obtain cs' F' D' where em: "emit_replica tk k r j (F, D) = (cs', F', D')"
    by (metis prod_cases3)
  have F': "F' = F[j := (case F ! j of None \<Rightarrow> stop_signal (status r ! j) | Some x \<Rightarrow> Some x)]"
    using emit_replica_frs [of tk k r j F D] em by simp
  have c': "length cs' = (if F ! j = None then 1 else 0)"
    using emit_replica_count [of tk k r j F D] em by simp
  have whole: "for_each [0..<Suc j] (emit_replica tk k r) (frs, decs) = (cs @ cs', F', D')"
    using st em by (simp add: for_each_append)
  have a: "length F' = length frs" using F' len by simp
  have b: "\<forall>i<length frs. F' ! i =
             (if i < Suc j
              then (case frs ! i of None \<Rightarrow> stop_signal (status r ! i) | Some x \<Rightarrow> Some x)
              else frs ! i)"
  proof (intro allI impI)
    fix i assume i: "i < length frs"
    show "F' ! i =
             (if i < Suc j
              then (case frs ! i of None \<Rightarrow> stop_signal (status r ! i) | Some x \<Rightarrow> Some x)
              else frs ! i)"
    proof (cases "i = j")
      case True
      with F' Fj len j show ?thesis by (simp split: option.split)
    next
      case False
      with F' nth i show ?thesis by (auto simp: less_Suc_eq)
    qed
  qed
  have c: "length (cs @ cs') = length (filter (\<lambda>i. frs ! i = None) [0..<Suc j])"
    using cnt c' Fj by simp
  from whole a b c show ?case by simp
qed

lemma emit_step_frs:
  assumes "n \<le> length frs"
  shows "length (fst (snd (emit_step tk k n r (frs, decs)))) = length frs"
    and "i < n \<Longrightarrow> fst (snd (emit_step tk k n r (frs, decs))) ! i =
           (case frs ! i of None \<Rightarrow> stop_signal (status r ! i) | Some x \<Rightarrow> Some x)"
    and "length (fst (emit_step tk k n r (frs, decs)))
           = length (filter (\<lambda>i. frs ! i = None) [0..<n])"
  using emit_upto [OF assms, of tk k r decs] assms by (auto simp: emit_step_def)

text \<open>The finish reasons after a list of tuples, from any starting value.\<close>

lemma emit_all_frs:
  assumes "n \<le> length frs" and "i < n"
  shows "length (fst (snd (for_each rs (emit_step tk k n) (frs, decs)))) = length frs
       \<and> fst (snd (for_each rs (emit_step tk k n) (frs, decs))) ! i =
           (case frs ! i of
              Some x \<Rightarrow> Some x
            | None \<Rightarrow>
                (case find (\<lambda>r. stop_signal (status r ! i) \<noteq> None) rs of
                   None \<Rightarrow> None
                 | Some r \<Rightarrow> stop_signal (status r ! i)))"
  using assms
proof (induction rs arbitrary: frs decs)
  case Nil
  then show ?case by (simp split: option.split)
next
  case (Cons r rs)
  obtain cs F D where st: "emit_step tk k n r (frs, decs) = (cs, F, D)"
    by (metis prod_cases3)
  have len: "length F = length frs"
    using emit_step_frs(1) [OF Cons.prems(1), of tk k r decs] st by simp
  have Fi: "F ! i = (case frs ! i of None \<Rightarrow> stop_signal (status r ! i) | Some x \<Rightarrow> Some x)"
    using emit_step_frs(2) [OF Cons.prems(1) Cons.prems(2), of tk k r decs] st by simp
  have n: "n \<le> length F" using len Cons.prems(1) by simp
  from Cons.IH [OF n Cons.prems(2), of D]
  have ih: "length (fst (snd (for_each rs (emit_step tk k n) (F, D)))) = length F"
    "fst (snd (for_each rs (emit_step tk k n) (F, D))) ! i =
           (case F ! i of
              Some x \<Rightarrow> Some x
            | None \<Rightarrow>
                (case find (\<lambda>r. stop_signal (status r ! i) \<noteq> None) rs of
                   None \<Rightarrow> None
                 | Some r \<Rightarrow> stop_signal (status r ! i)))"
    by simp_all
  have whole: "fst (snd (for_each (r # rs) (emit_step tk k n) (frs, decs)))
      = fst (snd (for_each rs (emit_step tk k n) (F, D)))"
    using st by (simp split: prod.splits)
  show ?case unfolding whole using ih len Fi
    by (auto split: option.splits)
qed

lemma stop_signal_eq:
  "stop_signal s \<noteq> None \<longleftrightarrow> s = 0 \<or> s = - 1"
  "s = 0 \<or> s = - 1 \<Longrightarrow> stop_signal s = Some (if s = 0 then Stop else Length)"
  by (auto simp: stop_signal_def)

lemma finish_reasons_after_nth:
  assumes "i < n"
  shows "length (finish_reasons_after tk k n decs rs) = n"
    and "finish_reasons_after tk k n decs rs ! i =
          (case find (\<lambda>r. status r ! i = 0 \<or> status r ! i = - 1) rs of
             None \<Rightarrow> None
           | Some r \<Rightarrow> Some (if status r ! i = 0 then Stop else Length))"
proof -
  have n: "n \<le> length (replicate n (None :: finish_reason option))" by simp
  note e = emit_all_frs [OF n assms, of rs tk k decs]
  show "length (finish_reasons_after tk k n decs rs) = n"
    using e by (simp add: finish_reasons_after_def)
  have p: "(\<lambda>r. stop_signal (status r ! i) \<noteq> None) = (\<lambda>r. status r ! i = 0 \<or> status r ! i = - 1)"
    by (rule ext) (rule stop_signal_eq(1))
  have "finish_reasons_after tk k n decs rs ! i =
          (case find (\<lambda>r. status r ! i = 0 \<or> status r ! i = - 1) rs of
             None \<Rightarrow> None
           | Some r \<Rightarrow> stop_signal (status r ! i))"
    using e assms unfolding finish_reasons_after_def p by simp
  moreover have "stop_signal (status r ! i) = Some (if status r ! i = 0 then Stop else Length)"
    if "find (\<lambda>r. status r ! i = 0 \<or> status r ! i = - 1) rs = Some r" for r
  proof -
    from that have "status r ! i = 0 \<or> status r ! i = - 1"
      by (auto simp: find_Some_iff)
    then show ?thesis by (rule stop_signal_eq(2))
  qed
  ultimately show "finish_reasons_after tk k n decs rs ! i =
          (case find (\<lambda>r. status r ! i = 0 \<or> status r ! i = - 1) rs of
             None \<Rightarrow> None
           | Some r \<Rightarrow> Some (if status r ! i = 0 then Stop else Length))"
    by (simp split: option.split)
qed

lemma finish_reasons_after_length: "length (finish_reasons_after tk k n decs rs) = n"
proof (cases n)
  case 0
  have "[0..<0] = []" by simp
  have e: "emit_step tk k 0 r s = ([], s)" for r and s :: "finish_reason option list \<times> 'a list"
    by (simp add: emit_step_def)
  have "snd (for_each rs (emit_step tk k 0) s) = s"
    for s :: "finish_reason option list \<times> 'a list"
    by (induction rs arbitrary: s) (simp_all add: e split: prod.splits)
  with 0 show ?thesis by (simp add: finish_reasons_after_def)
next
  case (Suc m)
  then have "0 < n" by simp
  from finish_reasons_after_nth(1) [OF this] show ?thesis .
qed

lemma find_append_Some:
  "find P xs = Some x \<Longrightarrow> find P (xs @ ys) = Some x"
  by (induction xs) (auto split: if_splits)

lemma finish_reasons_after_stable:
  assumes "i < n" and "finish_reasons_after tk k n decs rs ! i \<noteq> None"
  shows "finish_reasons_after tk k n decs (rs @ rs') ! i = finish_reasons_after tk k n decs rs ! i"
proof -
  from assms obtain r where
    "find (\<lambda>r. status r ! i = 0 \<or> status r ! i = - 1) rs = Some r"
    by (auto simp: finish_reasons_after_nth(2) [OF assms(1)] split: option.splits)
  then show ?thesis
    using find_append_Some [of "\<lambda>r. status r ! i = 0 \<or> status r ! i = - 1" rs r rs']
    by (simp add: finish_reasons_after_nth(2) [OF assms(1)])
qed

lemma call_body_finish_reasons:
  assumes "prompt_ids tk p = Inr ids"
    and "call_body fuel lm lib tk p mn mx temp topp n k echo w = Some (cs, out, w', frs)"
  shows "\<exists>rs. generate fuel lm lib (replicate (nat (max n 1)) ids) (max k 0)
             \<lparr>kw_min_new_tokens = Some (max mn 0), kw_max_new_tokens = Some (max mx 1),
              kw_temperature = Some temp, kw_top_p = Some topp\<rparr> w = Some (rs, out, w')
         \<and> frs = finish_reasons_after tk (max k 0) (nat (max n 1))
                 (snd (for_each ids (echo_token tk echo (max k 0) (nat (max n 1)))
                         (replicate (nat (max n 1)) (new_decoder tk)))) rs"
  using assms
  unfolding call_body_def finish_reasons_after_def Let_def
  by (auto split: prod.splits option.splits)

text \<open>An exhausted run with at most one end-of-sequence id has signalled a stop to every replica.\<close>

lemma generate_exhausted_signals:
  assumes eos: "normalize_eos (eos_token_id (config_update (lm_generation_config lm) kwargs)) = None
              \<or> normalize_eos (eos_token_id (config_update (lm_generation_config lm) kwargs)) = Some [e]"
    and run: "generate fuel lm lib input_ids logprobs kwargs w = Some (rs, StopIteration, w')"
    and i: "i < length input_ids"
  shows "\<exists>r\<in>set rs. status r ! i = 0 \<or> status r ! i = - 1"
proof -
  from generate_Some [OF run] have "rs = [] \<or> (\<exists>ctx ids2 unf w1.
            generate_init lm input_ids logprobs kwargs w = (Inr (ctx, ids2, unf), w1)
          \<and> gen_loop fuel lm lib ctx ids2 unf w1 = Some (rs, StopIteration, w'))" .
  moreover have "rs \<noteq> []"
  proof
    assume "rs = []"
    with run show False
      unfolding generate_def
      by (auto split: prod.splits sum.splits dest: gen_loop_exhausted)
  qed
  ultimately obtain ctx ids2 unf w1 where
    gi: "generate_init lm input_ids logprobs kwargs w = (Inr (ctx, ids2, unf), w1)" and
    loop: "gen_loop fuel lm lib ctx ids2 unf w1 = Some (rs, StopIteration, w')"
    by blast
  note g = generate_init_Inr [OF gi]
  have len: "length unf = length ids2" using g(1,2) by simp
  from gen_loop_exhausted [OF loop] have ne: "rs \<noteq> []" and
    le: "\<forall>x\<in>set (status (last rs)). x \<le> 0" by simp_all
  let ?k = "length rs - 1"
  have k: "?k < length rs" using ne by simp
  have last: "last rs = rs ! ?k" using ne by (simp add: last_conv_nth)
  have "length (status (rs ! ?k)) = length ids2"
    using gen_loop_shape [OF loop len k] by simp
  then have "status (rs ! ?k) ! i \<in> set (status (rs ! ?k))" using i g(1) by simp
  with le last have neg: "status (rs ! ?k) ! i \<le> 0" by simp
  from generate_status [OF eos run k i] obtain m where
    st: "status (rs ! ?k) ! i =
          (if normalize_eos (eos_token_id (config_update (lm_generation_config lm) kwargs)) = Some [e]
              \<and> (\<exists>j\<le>?k. tokens (rs ! j) ! i = e)
           then 0
           else if m \<le> int ?k + 1 then - 1 else 1)"
    by blast
  have "status (rs ! ?k) ! i = 0 \<or> status (rs ! ?k) ! i = - 1"
    using neg unfolding st by (auto split: if_splits)
  moreover have "rs ! ?k \<in> set rs" using k by simp
  ultimately show ?thesis by blast
qed

section \<open>The empty prompt\<close>

lemma config_update_kept [simp]:
  "eos_token_id (config_update config kw) = eos_token_id config"
  "pad_token_id (config_update config kw) = pad_token_id config"
  "bos_token_id (config_update config kw) = bos_token_id config"
  "decoder_start_token_id (config_update config kw) = decoder_start_token_id config"
  by (simp_all add: config_update_def)

lemma seed_empty_eq:
  assumes "ncols ids0 = 0"
  shows "seed_empty ids0 None = Inr (replicate (length ids0) [1], 1)"
    and "seed_empty ids0 (Some (e # es)) = Inr (replicate (length ids0) [e], 1)"
  using assms by (simp_all add: seed_empty_def first_id_def bind_r_def)

lemma ncols_replicate_Nil [simp]: "ncols (replicate b []) = 0"
  by (cases b) (simp_all add: ncols_def)

lemma generate_init_empty_prompt:
  assumes eos: "normalize_eos (eos_token_id (lm_generation_config lm)) = Some (e # es)"
    and dec: "\<not> lm_is_encoder_decoder lm"
  shows "\<exists>ctx. generate_init lm (replicate b []) k kwargs w
             = (Inr (ctx, replicate b [e], replicate b 1), w)
           \<and> ctx_input_length ctx = 1
           \<and> ctx_config ctx = config_update (lm_generation_config lm) kwargs
           \<and> ctx_encoder_outputs ctx = None"
proof -
  have pad: "\<exists>pad. collect_pad (pad_token_id (lm_generation_config lm)) (Some (e # es)) = Inr pad"
    by (simp add: collect_pad_def first_id_def bind_r_def split: option.split)
  then obtain pad where
    "collect_pad (pad_token_id (lm_generation_config lm)) (Some (e # es)) = Inr pad" by blast
  then show ?thesis
    using eos dec
    by (simp add: generate_init_def Let_def bind_r_def seed_empty_eq(2)
        prepare_encoder_decoder_def)
qed

text \<open>When the length cap is reached on the first pass, the loop yields one tuple and ends.\<close>

lemma gen_loop_one_step:
  assumes run: "gen_loop fuel lm lib ctx ids unf w = Some (rs, out, w')"
    and len: "length unf = length ids" and nn: "\<forall>i<length ids. 0 \<le> unf ! i"
    and ne: "ids \<noteq> []"
    and m: "max_new_tokens (ctx_config ctx) = Some m"
    and cap: "m \<le> int (ncols ids) + 1 - ctx_input_length ctx"
  shows "(rs = [] \<and> (\<exists>e. out = Raised e)) \<or> (\<exists>r. rs = [r] \<and> out = StopIteration)"
proof (cases fuel)
  case 0
  with run show ?thesis by simp
next
  case (Suc f)
  from gen_loop_cases [OF run [unfolded Suc]] show ?thesis
  proof (elim disjE exE conjE)
    fix e assume "rs = []" "out = Raised e"
    then show ?thesis by blast
  next
    fix g w1 r ids' unf'
    assume step: "decode_step lib ctx ids unf g = Inr (r, ids', unf')" and "status r = []"
    with decode_step_shape(4) [OF step len] ne show ?thesis by simp
  next
    fix g w1 r ids' unf'
    assume "rs = [r]" "out = StopIteration"
    then show ?thesis by blast
  next
    fix g w1 r ids' unf' rs'
    assume step: "decode_step lib ctx ids unf g = Inr (r, ids', unf')"
      and "\<not> (\<forall>x\<in>set (status r). x \<le> 0)"
    with decode_step_capped [OF step len nn m cap] show ?thesis by blast
  qed
qed

lemma emit_step_first_count:
  "length (fst (emit_step tk k n r (replicate n None, decs))) = n"
proof -
  have "filter (\<lambda>i. replicate n (None :: finish_reason option) ! i = None) [0..<n] = [0..<n]"
    by (rule filter_True) simp
  with emit_step_frs(3) [of n "replicate n None" tk k r decs] show ?thesis by simp
qed

lemma call_body_empty_prompt:
  assumes eos: "normalize_eos (eos_token_id (lm_generation_config lm)) = Some (e # es)"
    and dec: "\<not> lm_is_encoder_decoder lm" and fuel: "0 < fuel"
  shows "\<exists>cs out w' frs.
            call_body fuel lm lib tk (TensorPrompt 1 []) mn 1 temp topp n k echo w
              = Some (cs, out, w', frs)
          \<and> (out = StopIteration \<and> length cs = nat (max n 1)
              \<or> (\<exists>err. out = Raised err) \<and> cs = [])"
proof -
  let ?n = "nat (max n 1)"
  let ?kw = "\<lparr>kw_min_new_tokens = Some (max mn 0), kw_max_new_tokens = Some (max 1 1),
              kw_temperature = Some temp, kw_top_p = Some topp\<rparr>"
  have npos: "0 < ?n" by simp
  from generate_init_empty_prompt [OF eos dec, of ?n "max k 0" ?kw w] obtain ctx where
    gi: "generate_init lm (replicate ?n []) (max k 0) ?kw w
           = (Inr (ctx, replicate ?n [e], replicate ?n 1), w)" and
    il: "ctx_input_length ctx = 1" and
    cfg: "ctx_config ctx = config_update (lm_generation_config lm) ?kw"
    by blast
  have m: "max_new_tokens (ctx_config ctx) = Some 1" using cfg by (simp add: config_update_def)
  have len: "length (replicate ?n (1::int)) = length (replicate ?n [e])" by simp
  have nn: "\<forall>i<length (replicate ?n [e]). 0 \<le> replicate ?n (1::int) ! i" by simp
  have nc: "ncols (replicate ?n [e]) = 1" using npos by simp
  have bound: "\<forall>m. max_new_tokens (ctx_config ctx) = Some m
      \<longrightarrow> nat (m - (int (ncols (replicate ?n [e])) + 1 - ctx_input_length ctx)) < fuel"
    using m il nc fuel by simp
  from gen_loop_terminates [OF len nn bound fuel, of lm lib w] obtain rs out w' where
    loop: "gen_loop fuel lm lib ctx (replicate ?n [e]) (replicate ?n 1) w = Some (rs, out, w')"
    by blast
  have ne: "replicate ?n [e] \<noteq> []" using npos by simp
  have cap: "1 \<le> int (ncols (replicate ?n [e])) + 1 - ctx_input_length ctx"
    using il nc by simp
  from gen_loop_one_step [OF loop len nn ne m cap]
  have shape: "(rs = [] \<and> (\<exists>e. out = Raised e)) \<or> (\<exists>r. rs = [r] \<and> out = StopIteration)" .
  have gen: "generate fuel lm lib (replicate ?n []) (max k 0) ?kw w = Some (rs, out, w')"
    using gi loop by (simp add: generate_def)
  obtain cs frs D where
    em: "for_each rs (emit_step tk (max k 0) ?n) (replicate ?n None, replicate ?n (new_decoder tk))
           = (cs, frs, D)"
    by (metis prod_cases3)
  have body: "call_body fuel lm lib tk (TensorPrompt 1 []) mn 1 temp topp n k echo w
      = Some (cs, out, w', frs)"
    using gen em by (simp add: call_body_def prompt_ids_def del: for_each.simps(2))
  from shape have "out = StopIteration \<and> length cs = ?n \<or> (\<exists>err. out = Raised err) \<and> cs = []"
  proof
    assume "rs = [] \<and> (\<exists>e. out = Raised e)"
    with em show ?thesis by auto
  next
    assume "\<exists>r. rs = [r] \<and> out = StopIteration"
    then obtain r where r: "rs = [r]" "out = StopIteration" by blast
    have "cs = fst (emit_step tk (max k 0) ?n r (replicate ?n None, replicate ?n (new_decoder tk)))"
      using em r(1) by (simp split: prod.splits)
    then have "length cs = ?n" by (simp only: emit_step_first_count)
    with r(2) show ?thesis by blast
  qed
  with body show ?thesis by blast
qed

text \<open>
  Claim C7. When the batch that \<open>generate\<close> receives has rows of length zero, the rows
  become the single token 1 if no end-of-sequence id is configured and the first
  end-of-sequence id \<open>e\<close> otherwise, and the input length becomes 1. For a model that is
  not an encoder-decoder this is the history with which the decode loop starts. A call
  with an empty prompt and \<open>max_tokens = 1\<close> then always ends: either the first step raises
  and no choice is emitted, or the stream is exhausted after one generated choice per
  replica, which is exactly one choice for \<open>n = 1\<close>.
\<close>

theorem empty_prompt_seed:
  assumes eos: "normalize_eos (eos_token_id (lm_generation_config lm)) = Some (e # es)"
    and dec: "\<not> lm_is_encoder_decoder lm" and fuel: "0 < fuel"
  shows "(\<forall>ids0. ncols ids0 = 0 \<longrightarrow>
             seed_empty ids0 None = Inr (replicate (length ids0) [1], 1)
           \<and> seed_empty ids0 (Some (e # es)) = Inr (replicate (length ids0) [e], 1))
       \<and> (\<exists>ctx. generate_init lm (replicate b []) logprobs kwargs w
                   = (Inr (ctx, replicate b [e], replicate b 1), w)
                 \<and> ctx_input_length ctx = 1)
       \<and> (\<exists>cs out w' frs.
             call_body fuel lm lib tk (TensorPrompt 1 []) mn 1 temp topp n k echo w
               = Some (cs, out, w', frs)
           \<and> (out = StopIteration \<and> length cs = nat (max n 1)
               \<or> (\<exists>err. out = Raised err) \<and> cs = []))"
  using seed_empty_eq(1) seed_empty_eq(2) [where e = e and es = es]
    generate_init_empty_prompt [OF eos dec, where b = b and k = logprobs and kwargs = kwargs
      and w = w]
    call_body_empty_prompt [OF eos dec fuel, where lib = lib and tk = tk and mn = mn
      and temp = temp and topp = topp and n = n and k = k and echo = echo and w = w]
  by blast

text \<open>
  The theorem at the scenario of the claim: empty prompt, end-of-sequence ids \<open>[3]\<close>,
  \<open>max_tokens = 1\<close>, one replica.
\<close>

theorem empty_prompt_seed_witness:
  "normalize_eos (eos_token_id (lm_generation_config eos3_model)) = Some [3]
   \<and> \<not> lm_is_encoder_decoder eos3_model
   \<and> fst (generate_init eos3_model (replicate 1 []) 0
        \<lparr>kw_min_new_tokens = Some 0, kw_max_new_tokens = Some 1, kw_temperature = Some 1,
         kw_top_p = Some 1\<rparr> demo_world) = Inr (eos3_ctx, [[3]], [1])
   \<and> ctx_input_length eos3_ctx = 1
   \<and> call_body 1 eos3_model demo_library demo_tokenizer (TensorPrompt 1 []) 0 1 1 1 1 0 False
        demo_world
       = Some ([\<lparr>c_text = ''a'', c_index = 0, c_text_offset = 0, c_finish_reason = Some Length,
                  c_samples = None\<rparr>],
               StopIteration,
               \<lparr>invocations = [True], clock = 0, inference_mode = False\<rparr>,
               [Some Length])"
proof -
  have eos: "normalize_eos (eos_token_id (lm_generation_config eos3_model)) = Some (3 # [])"
    by (simp add: eos3_model_def normalize_eos_def)
  have dec: "\<not> lm_is_encoder_decoder eos3_model" by (simp add: eos3_model_def)
  have fuel: "(0::nat) < 1" by simp
  note seed = empty_prompt_seed [OF eos dec fuel, where b = 1 and logprobs = 0
      and kwargs = "\<lparr>kw_min_new_tokens = Some 0, kw_max_new_tokens = Some 1,
        kw_temperature = Some 1, kw_top_p = Some 1\<rparr>" and w = demo_world]
  from seed [THEN conjunct2, THEN conjunct1] obtain ctx where
    gi: "generate_init eos3_model (replicate 1 []) 0
        \<lparr>kw_min_new_tokens = Some 0, kw_max_new_tokens = Some 1, kw_temperature = Some 1,
         kw_top_p = Some 1\<rparr> demo_world = (Inr (ctx, replicate 1 [3], replicate 1 1), demo_world)"
    by blast
  have one: "replicate 1 ([] :: int list) = [[]]" by simp
  have "ctx = eos3_ctx" using gi unfolding one eos3_init by simp
  with gi have "fst (generate_init eos3_model (replicate 1 []) 0
        \<lparr>kw_min_new_tokens = Some 0, kw_max_new_tokens = Some 1, kw_temperature = Some 1,
         kw_top_p = Some 1\<rparr> demo_world) = Inr (eos3_ctx, [[3]], [1])"
    by simp
  moreover have "ctx_input_length eos3_ctx = 1" by (simp add: eos3_ctx_def)
  ultimately show ?thesis using eos dec eos3_call by simp
qed

section \<open>The diagnostics bundle of \<open>sample\<close>\<close>

lemma dict_fold_keys:
  "fst ` set (fold (\<lambda>(k, v) d. AList.update k v d) ps acc) = fst ` set ps \<union> fst ` set acc"
  by (induction ps arbitrary: acc) (auto simp: dom_update split: prod.splits)

lemma dict_fold_distinct:
  "distinct (map fst acc) \<Longrightarrow> distinct (map fst (fold (\<lambda>(k, v) d. AList.update k v d) ps acc))"
  by (induction ps arbitrary: acc) (auto simp: distinct_update split: prod.splits)

lemma dict_fold_map_of:
  "map_of (fold (\<lambda>(k, v) d. AList.update k v d) ps acc) = map_of acc ++ map_of (rev ps)"
proof (induction ps arbitrary: acc)
  case Nil
  then show ?case by simp
next
  case (Cons p ps)
  obtain k v where p: "p = (k, v)" by (cases p)
  have "map_of (fold (\<lambda>(k, v) d. AList.update k v d) (p # ps) acc) =
        map_of (AList.update k v acc) ++ map_of (rev ps)"
    using Cons [of "AList.update k v acc"] p by simp
  also have "\<dots> = map_of acc ++ ([k \<mapsto> v] ++ map_of (rev ps))"
    by (rule ext) (simp add: update_conv' map_add_def split: option.splits)
  also have "\<dots> = map_of acc ++ map_of (rev (p # ps))"
    using p by simp
  finally show ?case .
qed



lemma dict_of_keys: "fst ` set (dict_of ps) = fst ` set ps"
  by (simp add: dict_of_def dict_fold_keys)

lemma dict_of_distinct: "distinct (map fst (dict_of ps))"
  by (simp add: dict_of_def dict_fold_distinct)

lemma dict_of_map_of: "map_of (dict_of ps) = map_of (rev ps)"
  by (simp add: dict_of_def dict_fold_map_of)


lemma sample_fields:
  "s_token (sample dec token lp tts tlps) = dec token"
  "s_token_logprob (sample dec token lp tts tlps) = round8 lp"
  "s_top_logprobs (sample dec token lp tts tlps) =
     AList.update (dec token) (round8 lp) (dict_of (zip (map dec tts) (map round8 tlps)))"
  by (simp_all add: sample_def Let_def)

lemma sample_keys_distinct: "distinct (map fst (s_top_logprobs (sample dec token lp tts tlps)))"
  by (simp add: sample_fields distinct_update dict_of_distinct)

lemma sample_keys:
  "length tts = length tlps \<Longrightarrow>
   set (map fst (s_top_logprobs (sample dec token lp tts tlps))) = dec ` (set tts \<union> {token})"
proof -
  assume len: "length tts = length tlps"
  then have "fst ` set (zip (map dec tts) (map round8 tlps)) = dec ` set tts"
    by (metis length_map list.set_map map_fst_zip)
  then show ?thesis
    by (auto simp: sample_fields dom_update dict_of_keys)
qed

lemma sample_lookup:
  "map_of (s_top_logprobs (sample dec token lp tts tlps)) s =
     (if s = dec token then Some (round8 lp)
      else map_of (rev (zip (map dec tts) (map round8 tlps))) s)"
  by (simp add: sample_fields update_conv' dict_of_map_of)


lemma sample_length:
  "length tts = length tlps \<Longrightarrow>
   length (s_top_logprobs (sample dec token lp tts tlps)) = card (dec ` set (tts @ [token]))"
proof -
  assume len: "length tts = length tlps"
  let ?d = "s_top_logprobs (sample dec token lp tts tlps)"
  have "length ?d = length (map fst ?d)" by simp
  also have "\<dots> = card (set (map fst ?d))"
    using sample_keys_distinct [of dec token lp tts tlps] by (simp only: distinct_card)
  also have "\<dots> = card (dec ` set (tts @ [token]))"
    using sample_keys [OF len, of dec token lp] by simp
  finally show ?thesis .
qed








lemma history_Nil [simp]: "history ids [] = ids"
  by (simp add: history_def)

lemma history_Cons [simp]:
  "history ids (r # rs) = history (map2 (\<lambda>row t. row @ [t]) ids (tokens r)) rs"
  by (simp add: history_def)




text \<open>
  With at most one end-of-sequence id, the replicas without a finish reason after \<open>n\<close>
  tuples are the replicas whose statuses in these tuples are all 1.
\<close>

lemma no_finish_reason_active:
  assumes eos: "normalize_eos (eos_token_id (config_update (lm_generation_config lm) kwargs)) = None
              \<or> normalize_eos (eos_token_id (config_update (lm_generation_config lm) kwargs)) = Some [e]"
    and run: "generate fuel lm lib input_ids logprobs kwargs w = Some (rs, out, w')"
    and n: "n \<le> length rs" and i: "i < length input_ids"
  shows "finish_reasons_after tk k (length input_ids) decs (take n rs) ! i = None
         \<longleftrightarrow> (\<forall>j<n. status (rs ! j) ! i = 1)"
proof -
  have three: "status (rs ! j) ! i = 0 \<or> status (rs ! j) ! i = - 1 \<or> status (rs ! j) ! i = 1"
    if "j < n" for j
  proof -
    from that n have "j < length rs" by simp
    from generate_status [OF eos run this i] show ?thesis by (auto split: if_splits)
  qed
  have "finish_reasons_after tk k (length input_ids) decs (take n rs) ! i = None
        \<longleftrightarrow> find (\<lambda>r. status r ! i = 0 \<or> status r ! i = - 1) (take n rs) = None"
    using finish_reasons_after_nth(2) [OF i, of tk k decs "take n rs"]
    by (simp split: option.split)
  also have "\<dots> \<longleftrightarrow> (\<forall>j<n. \<not> (status (rs ! j) ! i = 0 \<or> status (rs ! j) ! i = - 1))"
    using n by (auto simp: find_None_iff in_set_conv_nth)
  also have "\<dots> \<longleftrightarrow> (\<forall>j<n. status (rs ! j) ! i = 1)"
    using three by fastforce
  finally show ?thesis .
qed

section \<open>Sampling diagnostics of a decode step\<close>







lemma ranked_tuple_simps [simp]:
  "status (ranked_tuple st) = st" "tokens (ranked_tuple st) = [2]"
  "top_tokens (ranked_tuple st) = [[0, 1]]"
  by (simp_all add: ranked_tuple_def)

lemma ranked_forward [simp]:
  "lm_forward ranked_model (ctx_encoder_outputs ranked_ctx) = lm_forward ranked_model None"
  by (simp add: ranked_ctx_def demo_run_ctx_def)






text \<open>
  Claim C10. The alternatives map that \<open>sample\<close> returns is keyed by decoded text: its keys
  are pairwise different and are exactly the decoded texts of the top tokens and of the
  chosen token. Under the text of the chosen token it holds the chosen token's rounded
  log-probability, whatever the top tokens are; under any other text it holds the rounded
  log-probability of the last top token that decodes to this text. So it has at most
  \<open>k + 1\<close> entries for \<open>k\<close> top tokens, and strictly fewer exactly if two of the \<open>k + 1\<close>
  tokens decode to the same text.
\<close>

theorem sample_map_keyed_by_text:
  assumes "length top_toks = length top_lps"
  shows "distinct (map fst (s_top_logprobs (sample dec token lp top_toks top_lps)))
     \<and> set (map fst (s_top_logprobs (sample dec token lp top_toks top_lps)))
         = dec ` (set top_toks \<union> {token})
     \<and> (\<forall>s. map_of (s_top_logprobs (sample dec token lp top_toks top_lps)) s =
            (if s = dec token then Some (round8 lp)
             else map_of (rev (zip (map dec top_toks) (map round8 top_lps))) s))
     \<and> length (s_top_logprobs (sample dec token lp top_toks top_lps)) \<le> length top_toks + 1
     \<and> (length (s_top_logprobs (sample dec token lp top_toks top_lps)) < length top_toks + 1
          \<longleftrightarrow> \<not> distinct (map dec (top_toks @ [token])))"
proof -
  let ?d = "s_top_logprobs (sample dec token lp top_toks top_lps)"
  have len: "length ?d = card (set (map dec (top_toks @ [token])))"
    using sample_length [OF assms, of dec token lp] by simp
  have le: "length ?d \<le> length top_toks + 1"
    unfolding len using card_length [of "map dec (top_toks @ [token])"] by simp
  have lt: "length ?d < length top_toks + 1 \<longleftrightarrow> \<not> distinct (map dec (top_toks @ [token]))"
  proof
    assume "length ?d < length top_toks + 1"
    then have "card (set (map dec (top_toks @ [token]))) \<noteq> length (map dec (top_toks @ [token]))"
      unfolding len by simp
    then show "\<not> distinct (map dec (top_toks @ [token]))"
      using distinct_card by blast
  next
    assume "\<not> distinct (map dec (top_toks @ [token]))"
    then have "card (set (map dec (top_toks @ [token]))) \<noteq> length (map dec (top_toks @ [token]))"
      using card_distinct by blast
    with le show "length ?d < length top_toks + 1" unfolding len by simp
  qed
  show ?thesis
    using sample_keys_distinct [of dec token lp top_toks top_lps]
      sample_keys [OF assms, of dec token lp] sample_lookup [of dec token lp top_toks top_lps]
      le lt
    by blast
qed

text \<open>The theorem at two top tokens and a chosen token that all decode to the same text.\<close>

theorem sample_map_keyed_by_text_witness:
  "length [1, 2 :: int] = length [- 1 / 2, - 1 :: real]
   \<and> length (s_top_logprobs (sample (decode demo_tokenizer) 1 (- 1 / 4) [1, 2] [- 1 / 2, - 1]))
       < length [1, 2 :: int] + 1
   \<and> map_of (s_top_logprobs (sample (decode demo_tokenizer) 1 (- 1 / 4) [1, 2] [- 1 / 2, - 1])) ''a''
       = Some (round8 (- 1 / 4))"
  using sample_map_keyed_by_text [of "[1, 2]" "[- 1 / 2, - 1]" "decode demo_tokenizer" 1 "- 1 / 4"]
  by (simp add: demo_tokenizer_def)

section \<open>Padding of finished replicas\<close>

text \<open>
  Claim C9. Let no pad id be configured and let \<open>e\<close> be the first configured
  end-of-sequence id. Then the pad id that \<open>generate\<close> uses in its loop is \<open>e\<close>; every
  yielded tuple has one token per replica, so the batch stays rectangular; and a replica
  that a tuple reports as stopped (status 0) has the token \<open>e\<close> in every later tuple,
  whatever was sampled for it. If \<open>e\<close> is the only end-of-sequence id, a replica that has
  emitted \<open>e\<close> emits \<open>e\<close> on every later step.
\<close>

theorem default_pad_is_first_eos:
  assumes pad: "pad_token_id (config_update (lm_generation_config lm) kwargs) = None"
    and eos: "normalize_eos (eos_token_id (config_update (lm_generation_config lm) kwargs))
                = Some (e # es)"
    and run: "generate fuel lm lib input_ids logprobs kwargs w = Some (rs, out, w')"
  shows "(\<forall>ctx ids2 unf w1.
            generate_init lm input_ids logprobs kwargs w = (Inr (ctx, ids2, unf), w1)
            \<longrightarrow> ctx_pad_token_id ctx = Some e)
       \<and> (\<forall>k<length rs. length (tokens (rs ! k)) = length input_ids)
       \<and> (\<forall>i j k. i < length input_ids \<and> j < k \<and> k < length rs \<and> status (rs ! j) ! i = 0
            \<longrightarrow> tokens (rs ! k) ! i = e)
       \<and> (es = [] \<longrightarrow>
            (\<forall>i j k. i < length input_ids \<and> j < k \<and> k < length rs \<and> tokens (rs ! j) ! i = e
               \<longrightarrow> tokens (rs ! k) ! i = e))"
proof -
  have init: "ctx_pad_token_id ctx = Some e \<and> ctx_eos_token_id ctx = Some (e # es)
      \<and> length unf = length ids2 \<and> length ids2 = length input_ids"
    if "generate_init lm input_ids logprobs kwargs w = (Inr (ctx, ids2, unf), w1)"
    for ctx ids2 unf w1
  proof -
    note g = generate_init_Inr [OF that]
    have "ctx_eos_token_id ctx = Some (e # es)" using g(3,4) eos by simp
    moreover have "ctx_pad_token_id ctx = Some e"
      using g(5) g(3) pad calculation by (simp add: collect_pad_def first_id_def bind_r_def)
    ultimately show ?thesis using g(1,2) by simp
  qed
  show ?thesis
  proof (cases "rs = []")
    case True
    with init show ?thesis by auto
  next
    case False
    with generate_Some [OF run] obtain ctx ids2 unf w1 where
      gi: "generate_init lm input_ids logprobs kwargs w = (Inr (ctx, ids2, unf), w1)" and
      loop: "gen_loop fuel lm lib ctx ids2 unf w1 = Some (rs, out, w')"
      by blast
    from init [OF gi] have ctx: "ctx_pad_token_id ctx = Some e"
      "ctx_eos_token_id ctx = Some (e # es)" "length unf = length ids2"
      "length ids2 = length input_ids" by simp_all
    have a: "\<forall>k<length rs. length (tokens (rs ! k)) = length input_ids"
      using gen_loop_shape [OF loop ctx(3)] ctx(4) by simp
    have b: "tokens (rs ! k) ! i = e"
      if "i < length input_ids" "j < k" "k < length rs" "status (rs ! j) ! i = 0" for i j k
      using gen_loop_stopped_pads [OF loop ctx(3), of i j k e] that ctx(1,4) by simp
    have c: "tokens (rs ! k) ! i = e"
      if "es = []" "i < length input_ids" "j < k" "k < length rs" "tokens (rs ! j) ! i = e"
      for i j k
    proof -
      have "status (rs ! j) ! i = 0"
        using gen_loop_single_eos_token [OF loop ctx(3), of i j e] that ctx(2,4) by simp
      with b that show ?thesis by blast
    qed
    from init a b c show ?thesis by blast
  qed
qed

text \<open>
  The theorem at the run of two steps: replica 0 is reported as stopped on the first step,
  draws the token 0 on the second, and emits the end-of-sequence id 1.
\<close>

theorem default_pad_is_first_eos_witness:
  "pad_token_id (config_update (lm_generation_config steady_model) demo_kwargs) = None
   \<and> normalize_eos (eos_token_id (config_update (lm_generation_config steady_model) demo_kwargs))
       = Some [1]
   \<and> generate 2 steady_model scripted_library [[7, 8], [7, 8]] 0 demo_kwargs demo_world
       = Some ([demo_tuple [0, 1], demo_tuple [0, - 1]], StopIteration,
               \<lparr>invocations = [True, True], clock = 0, inference_mode = False\<rparr>)
   \<and> status ([demo_tuple [0, 1], demo_tuple [0, - 1]] ! 0) ! 0 = 0
   \<and> multinomial scripted_library 3 0 [1 / 2, 1 / 2] = 0
   \<and> tokens ([demo_tuple [0, 1], demo_tuple [0, - 1]] ! 1) ! 0 = 1"
  using default_pad_is_first_eos [OF _ _ demo_generate, of 1 "[]"]
    demo_eos(1,2) [of 2] demo_generate
  by (simp add: demo_kwargs_max scripted_library_def)

section \<open>Status codes\<close>

text \<open>
  With one end-of-sequence id the update of \<open>unfinished\<close> multiplies the flag of a replica
  by 0 or 1. With two ids the sum of line 293 counts the ids that differ from the token:
  a token that is one of the ids leaves the flag as it is, and any other token doubles it.
\<close>

lemma mark_eos_one_id:
  "mark_eos (Some [2]) [1, 1] [2, 5] = Inr [0, 1]"
  by (simp add: mark_eos_def)

lemma mark_eos_two_ids:
  "mark_eos (Some [2, 3]) [1, 1] [3, 5] = Inr [1, 2]"
  by (simp add: mark_eos_def)

text \<open>
  Claim C1, as amended. Let at most one end-of-sequence id be configured. In the tuple
  of step \<open>k\<close> (counted from 0) the status of a replica is 0 if the replica has emitted
  the end-of-sequence id on this step or on an earlier one; otherwise it is \<open>-1\<close> if the
  number \<open>k + 1\<close> of newly generated tokens has reached \<open>max_new_tokens\<close>, and 1 if not. So
  a replica that selects the end-of-sequence id on the very step on which the length cap
  is reached is reported with 0, not with \<open>-1\<close>.
\<close>

theorem status_codes_single_eos:
  assumes eos: "normalize_eos (eos_token_id (config_update (lm_generation_config lm) kwargs)) = None
              \<or> normalize_eos (eos_token_id (config_update (lm_generation_config lm) kwargs)) = Some [e]"
    and run: "generate fuel lm lib input_ids logprobs kwargs w = Some (rs, out, w')"
    and k: "k < length rs" and i: "i < length input_ids"
  shows "\<exists>m. max_new_tokens (config_update (lm_generation_config lm) kwargs) = Some m
      \<and> status (rs ! k) ! i =
          (if normalize_eos (eos_token_id (config_update (lm_generation_config lm) kwargs)) = Some [e]
              \<and> (\<exists>j\<le>k. tokens (rs ! j) ! i = e)
           then 0
           else if m \<le> int k + 1 then - 1 else 1)"
  using assms by (rule generate_status)

text \<open>The theorem at the run of two steps.\<close>

theorem status_codes_single_eos_witness:
  "normalize_eos (eos_token_id (config_update (lm_generation_config steady_model) demo_kwargs))
     = Some [1]
   \<and> generate 2 steady_model scripted_library [[7, 8], [7, 8]] 0 demo_kwargs demo_world
       = Some ([demo_tuple [0, 1], demo_tuple [0, - 1]], StopIteration,
               \<lparr>invocations = [True, True], clock = 0, inference_mode = False\<rparr>)
   \<and> status ([demo_tuple [0, 1], demo_tuple [0, - 1]] ! 0) ! 0 = 0
   \<and> status ([demo_tuple [0, 1], demo_tuple [0, - 1]] ! 0) ! 1 = 1
   \<and> status ([demo_tuple [0, 1], demo_tuple [0, - 1]] ! 1) ! 1 = - 1"
  using status_codes_single_eos [OF _ demo_generate, of 1 0 0]
    status_codes_single_eos [OF _ demo_generate, of 1 0 1]
    status_codes_single_eos [OF _ demo_generate, of 1 1 1]
    demo_eos(1) [of 2] demo_generate
  by (simp add: demo_kwargs_max)

text \<open>
  Claim C1 as stated fails: with \<open>max_new_tokens = 1\<close> the first step is the step on which
  the length cap is reached; replica 0 is unfinished when the step starts, selects the
  end-of-sequence id 1, and is reported with status 0, not \<open>-1\<close>.
\<close>

theorem status_on_cap_step_counterexample:
  "generate 1 steady_model scripted_library [[7, 8], [7, 8]] 0
       (demo_kwargs\<lparr>kw_max_new_tokens := Some 1\<rparr>) demo_world
     = Some ([demo_tuple [0, - 1]], StopIteration,
             \<lparr>invocations = [True], clock = 0, inference_mode = False\<rparr>)
   \<and> max_new_tokens (config_update (lm_generation_config steady_model)
        (demo_kwargs\<lparr>kw_max_new_tokens := Some 1\<rparr>)) = Some 1
   \<and> tokens (demo_tuple [0, - 1]) ! 0 = 1
   \<and> status (demo_tuple [0, - 1]) ! 0 = 0
   \<and> status (demo_tuple [0, - 1]) ! 0 \<noteq> - 1"
  using demo_generate_capped demo_eos(3) [of 1] by simp

section \<open>Deterministic decoding\<close>

text \<open>\<open>argmax\<close> returns the first index of a maximal entry.\<close>

lemma argmax_fold:
  fixes pre :: "real list"
  assumes "best < length pre" and "\<forall>j<length pre. pre ! j \<le> pre ! best"
    and "\<forall>j<best. pre ! j < pre ! best"
  shows "case fold (\<lambda>q (best, bv, i). if bv < q then (i, q, i + 1) else (best, bv, i + 1))
                qs (best, pre ! best, length pre) of
           (b, v, n) \<Rightarrow> b < length (pre @ qs) \<and> v = (pre @ qs) ! b \<and> n = length (pre @ qs)
              \<and> (\<forall>j<length (pre @ qs). (pre @ qs) ! j \<le> (pre @ qs) ! b)
              \<and> (\<forall>j<b. (pre @ qs) ! j < (pre @ qs) ! b)"
  using assms
proof (induction qs arbitrary: pre best)
  case Nil
  then show ?case by simp
next
  case (Cons q qs)
  let ?pre = "pre @ [q]"
  show ?case
  proof (cases "pre ! best < q")
    case True
    have a: "length pre < length ?pre" by simp
    have lt: "pre ! j < q" if "j < length pre" for j
    proof -
      have "pre ! j \<le> pre ! best" using Cons.prems(2) that by blast
      with True show ?thesis by simp
    qed
    have b: "\<forall>j<length ?pre. ?pre ! j \<le> ?pre ! length pre"
      using lt by (auto simp: nth_append less_Suc_eq intro: less_imp_le)
    have c: "\<forall>j<length pre. ?pre ! j < ?pre ! length pre"
      using lt by (auto simp: nth_append)
    from Cons.IH [of "length pre" ?pre, OF a b c] True show ?thesis by simp
  next
    case False
    have a: "best < length ?pre" using Cons.prems(1) by simp
    have b: "\<forall>j<length ?pre. ?pre ! j \<le> ?pre ! best"
      using Cons.prems False by (auto simp: nth_append less_Suc_eq)
    have c: "\<forall>j<best. ?pre ! j < ?pre ! best"
      using Cons.prems by (auto simp: nth_append)
    from Cons.IH [of best ?pre, OF a b c] False Cons.prems(1) show ?thesis
      by (simp add: nth_append)
  qed
qed

lemma argmax_Inr:
  assumes "argmax row = Inr t"
  shows "0 \<le> t \<and> nat t < length row \<and> (\<forall>j<length row. row ! j \<le> row ! nat t)
       \<and> (\<forall>j<nat t. row ! j < row ! nat t)"
proof (cases row)
  case Nil
  with assms show ?thesis by (simp add: argmax_def)
next
  case (Cons p qs)
  from argmax_fold [of 0 "[p]" qs] Cons assms show ?thesis
    by (auto simp: argmax_def split: prod.splits)
qed

lemma select_tokens_deterministic:
  assumes "(\<exists>p. top_p config = Some p \<and> p \<le> 0) \<or> (\<exists>t. temperature config = Some t \<and> t \<le> 0)"
  shows "select_tokens lib config step probs = sequence_r (map argmax probs)"
  using assms by (auto simp: select_tokens_def)

lemma decode_step_deterministic:
  assumes "(\<exists>p. top_p (ctx_config ctx) = Some p \<and> p \<le> 0)
         \<or> (\<exists>t. temperature (ctx_config ctx) = Some t \<and> t \<le> 0)"
  shows "decode_step (lib\<lparr>multinomial := r1\<rparr>) ctx ids unf g
       = decode_step (lib\<lparr>multinomial := r2\<rparr>) ctx ids unf g"
proof -
  have "next_token_probs (lib\<lparr>multinomial := r1\<rparr>) ctx ids g
      = next_token_probs (lib\<lparr>multinomial := r2\<rparr>) ctx ids g"
    by (simp add: next_token_probs_def)
  then show ?thesis
    unfolding decode_step_def
    by (simp add: select_tokens_deterministic [OF assms])
qed

lemma gen_loop_deterministic:
  assumes "(\<exists>p. top_p (ctx_config ctx) = Some p \<and> p \<le> 0)
         \<or> (\<exists>t. temperature (ctx_config ctx) = Some t \<and> t \<le> 0)"
  shows "gen_loop fuel lm (lib\<lparr>multinomial := r1\<rparr>) ctx ids unf w
       = gen_loop fuel lm (lib\<lparr>multinomial := r2\<rparr>) ctx ids unf w"
proof (induction fuel arbitrary: ids unf w)
  case 0
  show ?case by simp
next
  case (Suc fuel)
  show ?case
    by (simp add: decode_step_deterministic [OF assms, where lib = lib and ?r1.0 = r1 and ?r2.0 = r2]
        Suc split: prod.splits sum.splits cong: sum.case_cong)
qed

lemma generate_deterministic:
  assumes "(\<exists>p. top_p (config_update (lm_generation_config lm) kwargs) = Some p \<and> p \<le> 0)
         \<or> (\<exists>t. temperature (config_update (lm_generation_config lm) kwargs) = Some t \<and> t \<le> 0)"
  shows "generate fuel lm (lib\<lparr>multinomial := r1\<rparr>) ids k kwargs w
       = generate fuel lm (lib\<lparr>multinomial := r2\<rparr>) ids k kwargs w"
proof (cases "generate_init lm ids k kwargs w")
  case (Pair a w1)
  show ?thesis
  proof (cases a)
    case (Inl e)
    with Pair show ?thesis by (simp add: generate_def)
  next
    case (Inr b)
    obtain ctx ids2 unf where b: "b = (ctx, ids2, unf)" by (cases b)
    with Pair Inr have gi: "generate_init lm ids k kwargs w = (Inr (ctx, ids2, unf), w1)" by simp
    have "ctx_config ctx = config_update (lm_generation_config lm) kwargs"
      by (rule generate_init_Inr(3) [OF gi])
    with assms have det: "(\<exists>p. top_p (ctx_config ctx) = Some p \<and> p \<le> 0)
         \<or> (\<exists>t. temperature (ctx_config ctx) = Some t \<and> t \<le> 0)" by simp
    show ?thesis
      by (simp add: generate_def gi
          gen_loop_deterministic [OF det, where lib = lib and ?r1.0 = r1 and ?r2.0 = r2])
  qed
qed

lemma call_body_deterministic:
  assumes "topp \<le> 0 \<or> temp \<le> 0"
  shows "call_body fuel lm (lib\<lparr>multinomial := r1\<rparr>) tk p mn mx temp topp n k echo w
       = call_body fuel lm (lib\<lparr>multinomial := r2\<rparr>) tk p mn mx temp topp n k echo w"
proof -
  have gen_eq: "generate fuel lm (lib\<lparr>multinomial := r1\<rparr>) ids k'
           \<lparr>kw_min_new_tokens = Some a, kw_max_new_tokens = Some b,
            kw_temperature = Some temp, kw_top_p = Some topp\<rparr> w
      = generate fuel lm (lib\<lparr>multinomial := r2\<rparr>) ids k'
           \<lparr>kw_min_new_tokens = Some a, kw_max_new_tokens = Some b,
            kw_temperature = Some temp, kw_top_p = Some topp\<rparr> w" for ids k' a b
    using assms by (intro generate_deterministic) (auto simp: config_update_def)
  show ?thesis
    by (cases "prompt_ids tk p") (simp_all add: call_body_def gen_eq)
qed

text \<open>
  Claim C6. Let the configuration of a call of \<open>generate\<close> have \<open>top_p \<le> 0\<close> or
  \<open>temperature \<le> 0\<close>. Then the tokens of a step are the arg-max of each row of the softmax
  distribution, the first index of a maximal probability, and no random draw is made:
  the whole result of \<open>generate\<close>, and of the stream of \<open>__call__\<close>, is the same for any two
  random sources. So two calls with the same prompt, configuration, model and world yield
  the same tokens.
\<close>

theorem deterministic_decoding:
  assumes "(\<exists>p. top_p (config_update (lm_generation_config lm) kwargs) = Some p \<and> p \<le> 0)
         \<or> (\<exists>t. temperature (config_update (lm_generation_config lm) kwargs) = Some t \<and> t \<le> 0)"
  shows "select_tokens lib (config_update (lm_generation_config lm) kwargs) step probs
           = sequence_r (map argmax probs)
       \<and> (\<forall>row t. argmax row = Inr t \<longrightarrow>
             0 \<le> t \<and> nat t < length row \<and> (\<forall>j<length row. row ! j \<le> row ! nat t))
       \<and> generate fuel lm (lib\<lparr>multinomial := r1\<rparr>) input_ids logprobs kwargs w
           = generate fuel lm (lib\<lparr>multinomial := r2\<rparr>) input_ids logprobs kwargs w
       \<and> (topp \<le> 0 \<or> temp \<le> 0 \<longrightarrow>
            call_body fuel lm (lib\<lparr>multinomial := r1\<rparr>) tk p mn mx temp topp n logprobs echo w
            = call_body fuel lm (lib\<lparr>multinomial := r2\<rparr>) tk p mn mx temp topp n logprobs echo w)"
  using select_tokens_deterministic [OF assms, of lib step probs] argmax_Inr
    generate_deterministic [OF assms, where fuel = fuel and lib = lib and ?r1.0 = r1
      and ?r2.0 = r2 and ids = input_ids and k = logprobs and w = w]
    call_body_deterministic [where topp = topp and temp = temp and fuel = fuel and lm = lm
      and lib = lib and ?r1.0 = r1 and ?r2.0 = r2 and tk = tk and p = p and mn = mn and mx = mx
      and n = n and k = logprobs and echo = echo and w = w]
  by blast

text \<open>The theorem at \<open>temperature = 0\<close> and two different random sources.\<close>

theorem deterministic_decoding_witness:
  "temperature (config_update (lm_generation_config steady_model)
       (demo_kwargs\<lparr>kw_temperature := Some 0\<rparr>)) = Some 0
   \<and> select_tokens scripted_library (config_update (lm_generation_config steady_model)
         (demo_kwargs\<lparr>kw_temperature := Some 0\<rparr>)) 2 [[1 / 2, 1 / 2], [1 / 4, 3 / 4]]
       = Inr [0, 1]
   \<and> generate 2 steady_model (scripted_library\<lparr>multinomial := (\<lambda>step i row. 0)\<rparr>)
         [[7, 8], [7, 8]] 0 (demo_kwargs\<lparr>kw_temperature := Some 0\<rparr>) demo_world
       = generate 2 steady_model (scripted_library\<lparr>multinomial := (\<lambda>step i row. 1)\<rparr>)
         [[7, 8], [7, 8]] 0 (demo_kwargs\<lparr>kw_temperature := Some 0\<rparr>) demo_world"
proof -
  let ?kw = "demo_kwargs\<lparr>kw_temperature := Some 0\<rparr>"
  let ?config = "config_update (lm_generation_config steady_model) ?kw"
  have cfg: "temperature ?config = Some 0"
    by (simp add: config_update_def demo_kwargs_def)
  then have det: "(\<exists>p. top_p ?config = Some p \<and> p \<le> 0)
      \<or> (\<exists>t. temperature ?config = Some t \<and> t \<le> 0)"
    by simp
  have sel: "select_tokens scripted_library ?config 2 [[1 / 2, 1 / 2], [1 / 4, 3 / 4]]
      = sequence_r (map argmax [[1 / 2, 1 / 2], [1 / 4, 3 / 4]])"
    by (rule deterministic_decoding [OF det, THEN conjunct1])
  have run: "generate 2 steady_model (scripted_library\<lparr>multinomial := (\<lambda>step i row. 0)\<rparr>)
         [[7, 8], [7, 8]] 0 ?kw demo_world
       = generate 2 steady_model (scripted_library\<lparr>multinomial := (\<lambda>step i row. 1)\<rparr>)
         [[7, 8], [7, 8]] 0 ?kw demo_world"
    by (rule deterministic_decoding [OF det, THEN conjunct2, THEN conjunct2, THEN conjunct1])
  have "sequence_r (map argmax [[1 / 2, 1 / 2], [1 / 4, 3 / 4 :: real]]) = Inr [0, 1]"
    by (simp add: argmax_def)
  with sel have "select_tokens scripted_library ?config 2 [[1 / 2, 1 / 2], [1 / 4, 3 / 4]]
      = Inr [0, 1]"
    by simp
  with cfg run show ?thesis by blast
qed

section \<open>Finish reasons\<close>

text \<open>
  Claim C2. After the orchestrator has processed any list of tuples of \<open>generate\<close>, its
  array \<open>finish_reasons\<close> has \<open>n\<close> entries, and the entry of replica \<open>i\<close> is determined by
  the first tuple whose status for \<open>i\<close> is 0 or \<open>-1\<close>: unset if there is none, otherwise
  \<open>stop\<close> for 0 and \<open>length\<close> for \<open>-1\<close>. So the entry changes once, at that tuple, and an entry
  that is set stays as it is whatever tuples follow. In the stream of \<open>__call__\<close> the array
  has \<open>max n 1\<close> entries and is the one so described for the tuples of \<open>generate\<close>. When at
  most one end-of-sequence id is configured and \<open>generate\<close> is exhausted, every entry is
  set.
\<close>

theorem finish_reasons_set_once:
  "length (finish_reasons_after tk k n decs rs) = n
   \<and> (\<forall>i<n. finish_reasons_after tk k n decs rs ! i =
          (case find (\<lambda>r. status r ! i = 0 \<or> status r ! i = - 1) rs of
             None \<Rightarrow> None
           | Some r \<Rightarrow> Some (if status r ! i = 0 then Stop else Length)))
   \<and> (\<forall>i<n. finish_reasons_after tk k n decs rs ! i \<noteq> None \<longrightarrow>
          finish_reasons_after tk k n decs (rs @ rs') ! i = finish_reasons_after tk k n decs rs ! i)
   \<and> (\<forall>ids cs out w' frs.
          prompt_ids tk p = Inr ids
          \<and> call_body fuel lm lib tk p mn mx temp topp n0 k0 echo w = Some (cs, out, w', frs)
          \<longrightarrow> length frs = nat (max n0 1)
            \<and> (\<exists>rs0 decs0.
                  generate fuel lm lib (replicate (nat (max n0 1)) ids) (max k0 0)
                    \<lparr>kw_min_new_tokens = Some (max mn 0), kw_max_new_tokens = Some (max mx 1),
                     kw_temperature = Some temp, kw_top_p = Some topp\<rparr> w = Some (rs0, out, w')
                  \<and> frs = finish_reasons_after tk (max k0 0) (nat (max n0 1)) decs0 rs0))
   \<and> ((normalize_eos (eos_token_id (config_update (lm_generation_config lm) kwargs)) = None
         \<or> normalize_eos (eos_token_id (config_update (lm_generation_config lm) kwargs)) = Some [e])
        \<and> generate fuel lm lib input_ids k kwargs w = Some (rs, StopIteration, w1)
        \<and> n = length input_ids
        \<longrightarrow> (\<forall>i<n. finish_reasons_after tk k n decs rs ! i \<noteq> None))"
proof (intro conjI allI impI)
  show "length (finish_reasons_after tk k n decs rs) = n"
    by (rule finish_reasons_after_length)
next
  fix i assume "i < n"
  then show "finish_reasons_after tk k n decs rs ! i =
          (case find (\<lambda>r. status r ! i = 0 \<or> status r ! i = - 1) rs of
             None \<Rightarrow> None
           | Some r \<Rightarrow> Some (if status r ! i = 0 then Stop else Length))"
    by (rule finish_reasons_after_nth(2))
next
  fix i assume "i < n" "finish_reasons_after tk k n decs rs ! i \<noteq> None"
  then show "finish_reasons_after tk k n decs (rs @ rs') ! i = finish_reasons_after tk k n decs rs ! i"
    by (rule finish_reasons_after_stable)
next
  fix ids cs out w' frs
  assume a: "prompt_ids tk p = Inr ids
          \<and> call_body fuel lm lib tk p mn mx temp topp n0 k0 echo w = Some (cs, out, w', frs)"
  from call_body_finish_reasons [of tk p ids fuel lm lib mn mx temp topp n0 k0 echo w cs out w' frs] a
  obtain rs0 decs0 where
    g: "generate fuel lm lib (replicate (nat (max n0 1)) ids) (max k0 0)
                    \<lparr>kw_min_new_tokens = Some (max mn 0), kw_max_new_tokens = Some (max mx 1),
                     kw_temperature = Some temp, kw_top_p = Some topp\<rparr> w = Some (rs0, out, w')" and
    f: "frs = finish_reasons_after tk (max k0 0) (nat (max n0 1)) decs0 rs0"
    by blast
  show "length frs = nat (max n0 1)" unfolding f by (rule finish_reasons_after_length)
  from g f show "\<exists>rs0 decs0.
                  generate fuel lm lib (replicate (nat (max n0 1)) ids) (max k0 0)
                    \<lparr>kw_min_new_tokens = Some (max mn 0), kw_max_new_tokens = Some (max mx 1),
                     kw_temperature = Some temp, kw_top_p = Some topp\<rparr> w = Some (rs0, out, w')
                  \<and> frs = finish_reasons_after tk (max k0 0) (nat (max n0 1)) decs0 rs0"
    by blast
next
  fix i
  assume a: "(normalize_eos (eos_token_id (config_update (lm_generation_config lm) kwargs)) = None
         \<or> normalize_eos (eos_token_id (config_update (lm_generation_config lm) kwargs)) = Some [e])
        \<and> generate fuel lm lib input_ids k kwargs w = Some (rs, StopIteration, w1)
        \<and> n = length input_ids" and i: "i < n"
  then have "\<exists>r\<in>set rs. status r ! i = 0 \<or> status r ! i = - 1"
    using generate_exhausted_signals [of lm kwargs e fuel lib input_ids k w rs w1 i] by blast
  then have "find (\<lambda>r. status r ! i = 0 \<or> status r ! i = - 1) rs \<noteq> None"
    unfolding find_None_iff by blast
  then show "finish_reasons_after tk k n decs rs ! i \<noteq> None"
    by (auto simp: finish_reasons_after_nth(2) [OF i] split: option.splits)
qed

text \<open>The theorem at the tuples of the run of two steps.\<close>

theorem finish_reasons_set_once_witness:
  "length (finish_reasons_after demo_tokenizer 0 2 [(), ()] [demo_tuple [0, 1]]) = 2
   \<and> finish_reasons_after demo_tokenizer 0 2 [(), ()] [demo_tuple [0, 1]] ! 0 = Some Stop
   \<and> finish_reasons_after demo_tokenizer 0 2 [(), ()] [demo_tuple [0, 1]] ! 1 = None
   \<and> finish_reasons_after demo_tokenizer 0 2 [(), ()] ([demo_tuple [0, 1]] @ [demo_tuple [0, - 1]]) ! 0
       = Some Stop
   \<and> finish_reasons_after demo_tokenizer 0 2 [(), ()] ([demo_tuple [0, 1]] @ [demo_tuple [0, - 1]]) ! 1
       = Some Length
   \<and> prompt_ids demo_tokenizer (TensorPrompt 1 [7, 8]) = Inr [7, 8]
   \<and> snd (snd (snd (the (call_body 2 steady_model scripted_library demo_tokenizer
         (TensorPrompt 1 [7, 8]) 0 2 1 1 2 0 False demo_world)))) = [Some Stop, Some Length]
   \<and> length [Some Stop, Some Length] = nat (max 2 1)
   \<and> generate 2 steady_model scripted_library [[7, 8], [7, 8]] 0 demo_kwargs demo_world
       = Some ([demo_tuple [0, 1], demo_tuple [0, - 1]], StopIteration,
               \<lparr>invocations = [True, True], clock = 0, inference_mode = False\<rparr>)
   \<and> finish_reasons_after demo_tokenizer 0 2 [(), ()] [demo_tuple [0, 1], demo_tuple [0, - 1]] ! 1
       \<noteq> None"
proof -
  note once = finish_reasons_set_once [where tk = demo_tokenizer and k = 0 and n = 2
      and decs = "[(), ()]"]
  note first = once [where rs = "[demo_tuple [0, 1]]" and rs' = "[demo_tuple [0, - 1]]"]
  note both = once [where rs = "[demo_tuple [0, 1]] @ [demo_tuple [0, - 1]]"]
  have a: "length (finish_reasons_after demo_tokenizer 0 2 [(), ()] [demo_tuple [0, 1]]) = 2"
    by (rule first [THEN conjunct1])
  have b: "finish_reasons_after demo_tokenizer 0 2 [(), ()] [demo_tuple [0, 1]] ! 0 = Some Stop"
    "finish_reasons_after demo_tokenizer 0 2 [(), ()] [demo_tuple [0, 1]] ! 1 = None"
    using first [THEN conjunct2, THEN conjunct1] by simp_all
  have c: "finish_reasons_after demo_tokenizer 0 2 [(), ()]
        ([demo_tuple [0, 1]] @ [demo_tuple [0, - 1]]) ! 0 = Some Stop"
    using first [THEN conjunct2, THEN conjunct2, THEN conjunct1] b(1) by simp
  have d: "finish_reasons_after demo_tokenizer 0 2 [(), ()]
        ([demo_tuple [0, 1]] @ [demo_tuple [0, - 1]]) ! 1 = Some Length"
    using both [THEN conjunct2, THEN conjunct1] by simp
  have p: "prompt_ids demo_tokenizer (TensorPrompt 1 [7, 8]) = Inr [7, 8]"
    by (simp add: prompt_ids_def)
  have "length [Some Stop, Some Length] = nat (max 2 1)"
    using finish_reasons_set_once [where tk = demo_tokenizer and p = "TensorPrompt 1 [7, 8]"
        and fuel = 2 and lm = steady_model and lib = scripted_library and mn = 0 and mx = 2
        and temp = 1 and topp = 1 and ?n0.0 = 2 and ?k0.0 = 0 and echo = False
        and w = demo_world, THEN conjunct2, THEN conjunct2, THEN conjunct2, THEN conjunct1]
      p demo_call
    by blast
  moreover have "snd (snd (snd (the (call_body 2 steady_model scripted_library demo_tokenizer
         (TensorPrompt 1 [7, 8]) 0 2 1 1 2 0 False demo_world)))) = [Some Stop, Some Length]"
    unfolding demo_call by simp
  moreover have "finish_reasons_after demo_tokenizer 0 2 [(), ()]
      [demo_tuple [0, 1], demo_tuple [0, - 1]] ! 1 \<noteq> None"
    using finish_reasons_set_once [where tk = demo_tokenizer and k = 0 and n = 2
        and decs = "[(), ()]" and rs = "[demo_tuple [0, 1], demo_tuple [0, - 1]]"
        and lm = steady_model and kwargs = demo_kwargs and e = 1 and fuel = 2
        and lib = scripted_library and input_ids = "[[7, 8], [7, 8]]" and w = demo_world,
        THEN conjunct2, THEN conjunct2, THEN conjunct2, THEN conjunct2]
      demo_generate demo_eos(1) [of 2]
    by (simp add: demo_kwargs_max)
  ultimately show ?thesis using a b c d p demo_generate by blast
qed

section \<open>Invalid prompts\<close>

lemma prompt_ids_invalid:
  "p = OtherPrompt \<or> (\<exists>d xs. p = TensorPrompt d xs \<and> d \<noteq> 1) \<Longrightarrow>
   prompt_ids tk p = Inl TypeError"
  by (auto simp: prompt_ids_def)

text \<open>
  Claim C3, as amended. If the prompt is neither a string nor a one-dimensional tensor,
  the call itself raises nothing: it returns the generator. Consuming the generator then
  raises \<open>TypeError\<close> before any element is yielded, and leaves the world untouched: no
  forward pass has been run and no delay has been slept.
\<close>

theorem invalid_prompt_raises_on_first_pull:
  assumes "p = OtherPrompt \<or> (\<exists>d xs. p = TensorPrompt d xs \<and> d \<noteq> 1)"
  shows "\<exists>g. call lm lib tk p mn mx temp topp n k echo = Inr g
           \<and> (\<forall>fuel w. consume g fuel w = Some ([], Raised TypeError, w, []))"
proof -
  have "call_body fuel lm lib tk p mn mx temp topp n k echo w = Some ([], Raised TypeError, w, [])"
    for fuel w
    using prompt_ids_invalid [OF assms, of tk] by (simp add: call_body_def)
  then show ?thesis by (simp add: call_def consume_def)
qed

text \<open>The theorem at a value of another type and at a two-dimensional tensor.\<close>

theorem invalid_prompt_raises_on_first_pull_witness:
  "consume (projr (call steady_model scripted_library demo_tokenizer OtherPrompt 0 16 1 1 1 0
       False)) 0 demo_world = Some ([], Raised TypeError, demo_world, [])
   \<and> consume (projr (call steady_model scripted_library demo_tokenizer (TensorPrompt 2 [7, 8])
       0 16 1 1 1 0 False)) 5 demo_world = Some ([], Raised TypeError, demo_world, [])"
proof -
  have a: "OtherPrompt = OtherPrompt \<or> (\<exists>d xs. OtherPrompt = TensorPrompt d xs \<and> d \<noteq> 1)"
    by simp
  have b: "TensorPrompt 2 [7, 8] = OtherPrompt
      \<or> (\<exists>d xs. TensorPrompt 2 [7, 8] = TensorPrompt d xs \<and> d \<noteq> 1)"
    by simp
  from invalid_prompt_raises_on_first_pull [OF a, of steady_model scripted_library demo_tokenizer
      0 16 1 1 1 0 False]
  obtain g where g: "call steady_model scripted_library demo_tokenizer OtherPrompt 0 16 1 1 1 0
      False = Inr g" "consume g 0 demo_world = Some ([], Raised TypeError, demo_world, [])"
    by blast
  from invalid_prompt_raises_on_first_pull [OF b, of steady_model scripted_library demo_tokenizer
      0 16 1 1 1 0 False]
  obtain h where h: "call steady_model scripted_library demo_tokenizer (TensorPrompt 2 [7, 8])
      0 16 1 1 1 0 False = Inr h" "consume h 5 demo_world = Some ([], Raised TypeError, demo_world, [])"
    by blast
  from g h show ?thesis by simp
qed

text \<open>
  Claim C3 as stated fails: for a prompt of another type the call does not fail with
  \<open>TypeError\<close>; the error is the first event of the stream that the call returns.
\<close>

theorem invalid_prompt_counterexample:
  "call steady_model scripted_library demo_tokenizer OtherPrompt 0 16 1 1 1 0 False
     \<noteq> Inl TypeError
   \<and> \<not> isl (call steady_model scripted_library demo_tokenizer OtherPrompt 0 16 1 1 1 0 False)
   \<and> consume (projr (call steady_model scripted_library demo_tokenizer OtherPrompt 0 16 1 1 1 0
        False)) 1 demo_world = Some ([], Raised TypeError, demo_world, [])"
  by (simp add: call_def consume_def call_body_def prompt_ids_def)

end
